theory Spec2Isabelle
  imports Main
begin

section \<open>JavaScript values and objects\<close>

text \<open>
  The values that travel through the configuration objects of \<open>Api\<close>. Numbers are
  modelled by integers (\<open>0\<close> is the falsy number). An object is its list of own
  properties in insertion order, which is the order \<open>Object.keys\<close> visits for
  property names such as \<open>chat_id\<close> (names that are not array indices).
\<close>

datatype jsval =
    JUndefined
  | JNull
  | JBool bool
  | JNum int
  | JStr string
  | JArr "jsval list"
  | JObj "(string \<times> jsval) list"

text \<open>\<open>!data\<close> is \<open>\<not> truthy data\<close>: undefined, null, false, 0 and the empty string are falsy.\<close>

fun truthy :: "jsval \<Rightarrow> bool" where
  "truthy JUndefined = False"
| "truthy JNull = False"
| "truthy (JBool b) = b"
| "truthy (JNum n) = (n \<noteq> 0)"
| "truthy (JStr s) = (s \<noteq> [])"
| "truthy (JArr _) = True"
| "truthy (JObj _) = True"

text \<open>\<open>typeof data === 'object'\<close>.\<close>

fun typeof_object :: "jsval \<Rightarrow> bool" where
  "typeof_object JNull = True"
| "typeof_object (JArr _) = True"
| "typeof_object (JObj _) = True"
| "typeof_object _ = False"

text \<open>
  Property assignment \<open>o[k] = v\<close> and object spread \<open>{...a, ...b}\<close>: an existing key
  keeps its position and takes the new value, a new key goes to the end.
\<close>

fun obj_set :: "(string \<times> 'a) list \<Rightarrow> string \<Rightarrow> 'a \<Rightarrow> (string \<times> 'a) list" where
  "obj_set [] k v = [(k, v)]"
| "obj_set ((k', v') # kvs) k v = (if k' = k then (k, v) # kvs else (k', v') # obj_set kvs k v)"

definition spread :: "(string \<times> 'a) list \<Rightarrow> (string \<times> 'a) list \<Rightarrow> (string \<times> 'a) list" where
  "spread a b = fold (\<lambda>(k, v) acc. obj_set acc k v) b a"

text \<open>\<open>index.toString()\<close> for a non-negative index: its decimal digits.\<close>

definition digit :: "nat \<Rightarrow> char" where
  "digit d = ''0123456789'' ! d"

fun toString :: "nat \<Rightarrow> string" where
  "toString n = (if n < 10 then [digit n] else toString (n div 10) @ [digit (n mod 10)])"

declare toString.simps [simp del]

section \<open>Media objects\<close>

datatype MediaFileTypes = photo | video | video_note | audio | voice | document | animation

fun typeName :: "MediaFileTypes \<Rightarrow> string" where
  "typeName photo = ''photo''"
| "typeName video = ''video''"
| "typeName video_note = ''video_note''"
| "typeName audio = ''audio''"
| "typeName voice = ''voice''"
| "typeName document = ''document''"
| "typeName animation = ''animation''"

datatype MediaPassTypes = path | direct

text \<open>
  Modelled from the spec: the class \<open>Media\<close> (and \<open>Photo\<close>, \<open>Video\<close>, ...) is declared
  outside the sources at hand. The fields are those \<open>Api\<close> reads: \<open>type\<close>, \<open>passType\<close>
  (\<open>path\<close> for a path-backed reference, anything else is \<open>direct\<close>), \<open>media\<close> (the local
  key, a string), \<open>thumb\<close>, \<open>resolution\<close> and \<open>options\<close>; \<open>instanceofVideo\<close> stands for
  the test \<open>media instanceof Video\<close>. An absent \<open>resolution\<close> is the empty object.
\<close>

datatype Media = Media
  (type: MediaFileTypes)
  (passType: MediaPassTypes)
  (media: string)
  (thumb: "Media option")
  (instanceofVideo: bool)
  (resolution: "(string \<times> jsval) list")
  (options: "(string \<times> jsval) list option")

section \<open>MediaCache\<close>

text \<open>
  Modelled from the spec: the module \<open>./Media/MediaCache\<close> is not among the sources.
  The spec gives \<open>lookup(key) -> identifier | absent\<close> and \<open>store(key, identifier)\<close>,
  which inserts if the key is absent and is a no-op if the key is already present.
\<close>

type_synonym MediaCache = "string \<rightharpoonup> string"

definition mediaCache_getMediaFileId :: "MediaCache \<Rightarrow> string \<Rightarrow> string option" where
  "mediaCache_getMediaFileId mediaCache p = mediaCache p"

definition mediaCache_saveMediaFileId :: "MediaCache \<Rightarrow> string \<Rightarrow> string \<Rightarrow> MediaCache" where
  "mediaCache_saveMediaFileId mediaCache p fileId =
     (case mediaCache p of None \<Rightarrow> mediaCache(p \<mapsto> fileId) | Some _ \<Rightarrow> mediaCache)"

text \<open>
  The source never asks whether a key is present: it tests the looked-up value for
  truthiness (\<open>getMediaFileId(p) || ...\<close>, \<open>!getMediaFileId(p)\<close>). \<open>cachedFileId\<close> is the
  looked-up identifier when it is truthy, that is, present and not the empty string.
\<close>

definition cachedFileId :: "MediaCache \<Rightarrow> string \<Rightarrow> string option" where
  "cachedFileId mediaCache p =
     (case mediaCache_getMediaFileId mediaCache p of
        None \<Rightarrow> None
      | Some fileId \<Rightarrow> if fileId = [] then None else Some fileId)"

section \<open>Multipart forms\<close>

text \<open>
  A configuration value is a plain JavaScript value or a media object (the \<open>thumb\<close> of
  \<open>IDefaultSendMediaConfig\<close>).
\<close>

datatype cfgval = V jsval | M Media

type_synonym Config = "(string \<times> cfgval) list"

fun cfg_truthy :: "cfgval \<Rightarrow> bool" where
  "cfg_truthy (V v) = truthy v"
| "cfg_truthy (M _) = True"

fun cfg_typeof_object :: "cfgval \<Rightarrow> bool" where
  "cfg_typeof_object (V v) = typeof_object v"
| "cfg_typeof_object (M _) = True"

text \<open>
  What \<open>formData.append\<close> received: a value as it is, the text \<open>JSON.stringify(data)\<close>
  of a value, or the stream \<open>fs.createReadStream(p)\<close> of the file at \<open>p\<close>. A
  \<open>FormData\<close> is the list of its parts in the order they were appended.
\<close>

datatype FormValue = AsIs jsval | JsonText cfgval | ReadStream string

type_synonym FormData = "(string \<times> FormValue) list"

fun appendMediaToFormData :: "FormData \<Rightarrow> string \<Rightarrow> string + Media \<Rightarrow> FormData" where
  "appendMediaToFormData formData key (Inl s) = formData @ [(key, AsIs (JStr s))]"
| "appendMediaToFormData formData key (Inr m) =
     (if passType m = path then formData @ [(key, ReadStream (media m))]
      else formData @ [(key, AsIs (JStr (media m)))])"

text \<open>\<open>mediaCache.getMediaFileId(m.media) || m\<close>.\<close>

definition cachedOrMedia :: "MediaCache \<Rightarrow> Media \<Rightarrow> string + Media" where
  "cachedOrMedia mediaCache m =
     (case cachedFileId mediaCache (media m) of Some fileId \<Rightarrow> Inl fileId | None \<Rightarrow> Inr m)"

text \<open>
  The body of the \<open>Object.keys(config).forEach\<close> loop shared by \<open>buildFormData\<close> and
  \<open>buildAttachFormData\<close>.
\<close>

definition fieldValue :: "cfgval \<Rightarrow> FormValue" where
  "fieldValue data =
     (if cfg_typeof_object data then JsonText data
      else (case data of V v \<Rightarrow> AsIs v | M m \<Rightarrow> JsonText data))"

definition appendField :: "string \<times> cfgval \<Rightarrow> FormData \<Rightarrow> FormData" where
  "appendField kv formData =
     (case kv of (key, data) \<Rightarrow>
        if \<not> cfg_truthy data then formData
        else formData @ [(key, fieldValue data)])"

definition appendConfig :: "FormData \<Rightarrow> Config \<Rightarrow> FormData" where
  "appendConfig formData config = fold appendField config formData"

text \<open>
  \<open>config.thumb\<close>: \<open>IDefaultSendMediaConfig\<close> types it as a media object or undefined.
\<close>

definition config_thumb :: "Config \<Rightarrow> Media option" where
  "config_thumb config = (case map_of config ''thumb'' of Some (M t) \<Rightarrow> Some t | _ \<Rightarrow> None)"

definition buildFormData :: "MediaCache \<Rightarrow> string \<Rightarrow> Media \<Rightarrow> Config \<Rightarrow> FormData" where
  "buildFormData mediaCache fromMediaKey m config =
     (let formData = appendMediaToFormData [] fromMediaKey (cachedOrMedia mediaCache m);
          formData' = (case config_thumb config of
                         Some t \<Rightarrow> appendMediaToFormData formData ''thumb'' (cachedOrMedia mediaCache t)
                       | None \<Rightarrow> formData)
      in appendConfig formData' config)"

definition buildAttachFormData :: "Config \<Rightarrow> FormData" where
  "buildAttachFormData config = appendConfig [] config"

section \<open>Write-back of file identifiers\<close>

datatype error = NestgramError string | TypeError

record FileInfo =
  file_id :: string

text \<open>
  Modelled from the spec: \<open>IMessage\<close> is declared outside the sources at hand. A message
  carries, under the name of the media kind, a single object with a string identifier,
  or for \<open>photo\<close> a list of such objects by ascending resolution; a field may be absent.
\<close>

record IMessage =
  msg_photo :: "FileInfo list option"
  msg_video :: "FileInfo option"
  msg_video_note :: "FileInfo option"
  msg_audio :: "FileInfo option"
  msg_voice :: "FileInfo option"
  msg_document :: "FileInfo option"
  msg_animation :: "FileInfo option"

text \<open>\<open>message[mediaKey]\<close> for a kind other than \<open>photo\<close>.\<close>

fun messageField :: "IMessage \<Rightarrow> MediaFileTypes \<Rightarrow> FileInfo option" where
  "messageField message photo = None"
| "messageField message video = msg_video message"
| "messageField message video_note = msg_video_note message"
| "messageField message audio = msg_audio message"
| "messageField message voice = msg_voice message"
| "messageField message document = msg_document message"
| "messageField message animation = msg_animation message"

text \<open>
  Lines 147 to 149 of \<open>Api.saveMediaFileId\<close> up to the read of \<open>file_id\<close>: reading
  \<open>length\<close> or \<open>file_id\<close> of undefined throws a \<open>TypeError\<close>, and so does the last
  element of an empty list, which is undefined.
\<close>

definition mediaFileInfo :: "MediaFileTypes \<Rightarrow> IMessage \<Rightarrow> error + FileInfo" where
  "mediaFileInfo mediaKey message =
     (if mediaKey = photo then
        (case msg_photo message of
           None \<Rightarrow> Inl TypeError
         | Some sizes \<Rightarrow> if sizes = [] then Inl TypeError else Inr (sizes ! (length sizes - 1)))
      else
        (case messageField message mediaKey of
           None \<Rightarrow> Inl TypeError
         | Some info \<Rightarrow> Inr info))"

text \<open>
  The shared cache is passed in and returned. A throw leaves it as it was.
\<close>

definition saveMediaFileId ::
  "MediaCache \<Rightarrow> string \<Rightarrow> MediaFileTypes \<Rightarrow> IMessage \<Rightarrow> (error + IMessage) \<times> MediaCache" where
  "saveMediaFileId mediaCache p mediaKey message =
     (if cachedFileId mediaCache p = None then
        (case mediaFileInfo mediaKey message of
           Inl e \<Rightarrow> (Inl e, mediaCache)
         | Inr info \<Rightarrow> (Inr message, mediaCache_saveMediaFileId mediaCache p (file_id info)))
      else (Inr message, mediaCache))"

section \<open>Remote calls\<close>

text \<open>
  The HTTP transport (\<open>axios.post\<close>) is a collaborator: a function from the URL and the
  body to the parsed \<open>data.result\<close>, or to the failure it throws (a transport error or an
  error reported by the remote side). A failure carries \<open>e.response?.data?.description\<close>
  when there is one, and the text of \<open>e\<close>. The requests handed to the transport are
  logged, in order.
\<close>

record failure =
  description :: "string option"
  raw :: string

type_synonym ('k, 't) transport = "string \<Rightarrow> 'k \<Rightarrow> failure + 't"

type_synonym 'k requests = "(string \<times> 'k) list"

definition apiUrl :: "string \<Rightarrow> string \<Rightarrow> string" where
  "apiUrl token method = ''https://api.telegram.org/bot'' @ token @ ''/'' @ method"

definition callError :: "failure \<Rightarrow> error" where
  "callError e =
     NestgramError (''.callApi error: '' @
       (case description e of
          Some d \<Rightarrow> if d \<noteq> [] then d else raw e
        | None \<Rightarrow> raw e))"

definition call ::
  "('k, 't) transport \<Rightarrow> string \<Rightarrow> string \<Rightarrow> 'k \<Rightarrow> 'k requests \<Rightarrow> (error + 't) \<times> 'k requests" where
  "call post token method config sent =
     (case post (apiUrl token method) config of
        Inr result \<Rightarrow> (Inr result, sent @ [(apiUrl token method, config)])
      | Inl e \<Rightarrow> (Inl (callError e), sent @ [(apiUrl token method, config)]))"

text \<open>\<open>!this.token\<close> holds for an undefined token and for the empty string.\<close>

definition noToken :: "string \<Rightarrow> error" where
  "noToken method = NestgramError (''You can't call .'' @ method @ '' without token'')"

definition callApi ::
  "('k, 't) transport \<Rightarrow> string option \<Rightarrow> string \<Rightarrow> 'k \<Rightarrow> 'k requests \<Rightarrow> (error + 't) \<times> 'k requests" where
  "callApi post token method config sent =
     (case token of
        None \<Rightarrow> (Inl (noToken method), sent)
      | Some t \<Rightarrow>
          if t = [] then (Inl (noToken method), sent)
          else call post t method config sent)"

section \<open>Sending one media\<close>

text \<open>
  A \<open>Keyboard\<close> is modelled by the value its \<open>buildMarkup()\<close> returns; \<open>None\<close> is the
  \<open>null\<close> keyboard.
\<close>

definition withKeyboard :: "jsval option \<Rightarrow> Config \<Rightarrow> Config" where
  "withKeyboard keyboard moreOptions =
     (case keyboard of
        Some markup \<Rightarrow> obj_set moreOptions ''reply_markup'' (V markup)
      | None \<Rightarrow> moreOptions)"

definition thumbValue :: "Media \<Rightarrow> cfgval" where
  "thumbValue m = (case thumb m of Some t \<Rightarrow> M t | None \<Rightarrow> V JUndefined)"

definition resolutionConfig :: "Media \<Rightarrow> Config" where
  "resolutionConfig m = map (\<lambda>(k, v). (k, V v)) (resolution m)"

text \<open>
  The pattern the seven single senders share:
  \<open>Api.saveMediaFileId(m.media, key, await this.callApi(method, this.buildFormData(key, m, config)))\<close>.
  The form is built first, then the call is made; \<open>saveMediaFileId\<close> runs only on the
  value the call returns. The result is the message or the error thrown, with the cache
  and the request log after the call.
\<close>

definition sendMedia ::
  "(FormData, IMessage) transport \<Rightarrow> string option \<Rightarrow> string \<Rightarrow> MediaFileTypes \<Rightarrow> Media \<Rightarrow> Config
     \<Rightarrow> MediaCache \<Rightarrow> FormData requests \<Rightarrow> (error + IMessage) \<times> MediaCache \<times> FormData requests" where
  "sendMedia post token method mediaKey m config mediaCache sent =
     (let formData = buildFormData mediaCache (typeName mediaKey) m config in
        (case callApi post token method formData sent of
           (Inl e, sent') \<Rightarrow> (Inl e, mediaCache, sent')
         | (Inr message, sent') \<Rightarrow>
             (case saveMediaFileId mediaCache (media m) mediaKey message of
                (r, mediaCache') \<Rightarrow> (r, mediaCache', sent'))))"

definition baseConfig :: "jsval \<Rightarrow> Config" where
  "baseConfig chatId = [(''chat_id'', V chatId), (''parse_mode'', V (JStr ''HTML''))]"

definition sendPhoto where
  "sendPhoto post token chatId m keyboard moreOptions =
     sendMedia post token ''sendPhoto'' photo m
       (spread (baseConfig chatId) (withKeyboard keyboard moreOptions))"

definition sendVideo where
  "sendVideo post token chatId m keyboard moreOptions =
     sendMedia post token ''sendVideo'' video m
       (spread (spread (baseConfig chatId @ [(''thumb'', thumbValue m)]) (resolutionConfig m))
          (withKeyboard keyboard moreOptions))"

definition sendVideoNote where
  "sendVideoNote post token chatId m keyboard moreOptions =
     sendMedia post token ''sendVideoNote'' video_note m
       (spread (baseConfig chatId @ [(''thumb'', thumbValue m)]) (withKeyboard keyboard moreOptions))"

definition sendAudio where
  "sendAudio post token chatId m keyboard moreOptions =
     sendMedia post token ''sendAudio'' audio m
       (spread (baseConfig chatId @ [(''thumb'', thumbValue m)]) (withKeyboard keyboard moreOptions))"

definition sendVoice where
  "sendVoice post token chatId m keyboard moreOptions =
     sendMedia post token ''sendVoice'' voice m
       (spread (baseConfig chatId) (withKeyboard keyboard moreOptions))"

definition sendDocument where
  "sendDocument post token chatId m keyboard moreOptions =
     sendMedia post token ''sendDocument'' document m
       (spread (baseConfig chatId @ [(''thumb'', thumbValue m)]) (withKeyboard keyboard moreOptions))"

definition sendAnimation where
  "sendAnimation post token chatId m keyboard moreOptions =
     sendMedia post token ''sendAnimation'' animation m
       (spread (spread (baseConfig chatId @ [(''thumb'', thumbValue m)]) (resolutionConfig m))
          (withKeyboard keyboard moreOptions))"

section \<open>Sending a media group\<close>

text \<open>The callback of \<open>mediaGroup.map\<close>: the descriptor of the item at \<open>index\<close>.\<close>

definition mediaDescriptor :: "MediaCache \<Rightarrow> nat \<Rightarrow> Media \<Rightarrow> (string \<times> jsval) list" where
  "mediaDescriptor mediaCache index m =
     spread
       (spread
          (spread
             [(''type'', JStr (typeName (type m))),
              (''media'', JStr (case cachedFileId mediaCache (media m) of
                                  Some fileId \<Rightarrow> fileId
                                | None \<Rightarrow> ''attach://'' @ toString index))]
             (case thumb m of
                Some t \<Rightarrow>
                  [(''thumb'', JStr (case cachedFileId mediaCache (media t) of
                                      Some fileId \<Rightarrow> fileId
                                    | None \<Rightarrow> ''attach://'' @ toString index @ ''_thumb''))]
              | None \<Rightarrow> []))
          (if instanceofVideo m then resolution m else []))
       (case options m of Some opts \<Rightarrow> opts | None \<Rightarrow> [])"

definition descriptors :: "MediaCache \<Rightarrow> Media list \<Rightarrow> jsval list" where
  "descriptors mediaCache mediaGroup =
     map (\<lambda>(index, m). JObj (mediaDescriptor mediaCache index m)) (enumerate 0 mediaGroup)"

text \<open>The callback of \<open>mediaGroup.forEach\<close>: the binary parts of the item at \<open>index\<close>.\<close>

definition attachMedia :: "MediaCache \<Rightarrow> nat \<times> Media \<Rightarrow> FormData \<Rightarrow> FormData" where
  "attachMedia mediaCache im formData =
     (case im of (index, m) \<Rightarrow>
        (let formData' =
               (if cachedFileId mediaCache (media m) = None
                then appendMediaToFormData formData (toString index) (Inr m)
                else formData)
         in (case thumb m of
               Some t \<Rightarrow>
                 if cachedFileId mediaCache (media t) = None
                 then appendMediaToFormData formData' (toString index @ ''_thumb'') (Inr t)
                 else formData'
             | None \<Rightarrow> formData')))"

definition mediaGroupFormData :: "MediaCache \<Rightarrow> jsval \<Rightarrow> Media list \<Rightarrow> Config \<Rightarrow> FormData" where
  "mediaGroupFormData mediaCache chatId mediaGroup moreOptions =
     (let formData = buildAttachFormData
            (spread [(''chat_id'', V chatId), (''media'', V (JArr (descriptors mediaCache mediaGroup)))]
               moreOptions)
      in fold (attachMedia mediaCache) (enumerate 0 mediaGroup) formData)"

text \<open>
  \<open>sentMessages.indexOf(sentMessage)\<close> compares with \<open>===\<close>, which on objects is identity
  and not content. An object is therefore a pair of its identity and its content, and
  the elements of a parsed response are objects of their own: \<open>objects\<close> numbers them as
  they are allocated. \<open>indexOf\<close> gives \<open>None\<close> for \<open>-1\<close>.
\<close>

type_synonym 'a obj = "nat \<times> 'a"

definition objects :: "'a list \<Rightarrow> 'a obj list" where
  "objects xs = enumerate 0 xs"

fun indexOf :: "'a obj list \<Rightarrow> 'a obj \<Rightarrow> nat option" where
  "indexOf [] x = None"
| "indexOf (y # ys) x = (if fst y = fst x then Some 0 else map_option Suc (indexOf ys x))"

text \<open>\<open>mediaGroup[i]\<close>: undefined outside the array.\<close>

definition at :: "'a list \<Rightarrow> nat option \<Rightarrow> 'a option" where
  "at xs i = (case i of None \<Rightarrow> None | Some n \<Rightarrow> if n < length xs then Some (xs ! n) else None)"

text \<open>
  The \<open>for ... of\<close> loop over \<open>sentMessages\<close>; \<open>rest\<close> is what remains to be visited.
  Reading \<open>media\<close> of an undefined item throws a \<open>TypeError\<close>. A throw ends the loop and
  keeps the entries written so far.
\<close>

fun writeBack ::
  "Media list \<Rightarrow> IMessage obj list \<Rightarrow> IMessage obj list \<Rightarrow> MediaCache \<Rightarrow> error option \<times> MediaCache" where
  "writeBack mediaGroup sentMessages [] mediaCache = (None, mediaCache)"
| "writeBack mediaGroup sentMessages (sentMessage # rest) mediaCache =
     (case at mediaGroup (indexOf sentMessages sentMessage) of
        None \<Rightarrow> (Some TypeError, mediaCache)
      | Some m \<Rightarrow>
          (case saveMediaFileId mediaCache (media m) (type m) (snd sentMessage) of
             (Inl e, mediaCache') \<Rightarrow> (Some e, mediaCache')
           | (Inr _, mediaCache') \<Rightarrow> writeBack mediaGroup sentMessages rest mediaCache'))"

definition sendMediaGroup ::
  "(FormData, IMessage list) transport \<Rightarrow> string option \<Rightarrow> jsval \<Rightarrow> Media list \<Rightarrow> Config
     \<Rightarrow> MediaCache \<Rightarrow> FormData requests \<Rightarrow> (error + IMessage list) \<times> MediaCache \<times> FormData requests" where
  "sendMediaGroup post token chatId mediaGroup moreOptions mediaCache sent =
     (let formData = mediaGroupFormData mediaCache chatId mediaGroup moreOptions in
        (case callApi post token ''sendMediaGroup'' formData sent of
           (Inl e, sent') \<Rightarrow> (Inl e, mediaCache, sent')
         | (Inr result, sent') \<Rightarrow>
             (let sentMessages = objects result in
                (case writeBack mediaGroup sentMessages sentMessages mediaCache of
                   (Some e, mediaCache') \<Rightarrow> (Inl e, mediaCache', sent')
                 | (None, mediaCache') \<Rightarrow> (Inr result, mediaCache', sent')))))"

subsection \<open>Parts of the form of a media group\<close>

text \<open>
  What \<open>appendMediaToFormData\<close> appends for a media object: the stream of its file
  when it is path-backed, its \<open>media\<close> value as it is otherwise.
\<close>

definition payload :: "Media \<Rightarrow> FormValue" where
  "payload m = (if passType m = path then ReadStream (media m) else AsIs (JStr (media m)))"

text \<open>The parts the \<open>forEach\<close> loop of \<open>sendMediaGroup\<close> appends to the form.\<close>

definition attachments :: "MediaCache \<Rightarrow> Media list \<Rightarrow> FormData" where
  "attachments mediaCache mediaGroup = fold (attachMedia mediaCache) (enumerate 0 mediaGroup) []"

text \<open>
  The keys that the \<open>resolution\<close> (of a video) and the \<open>options\<close> of an item spread
  into its descriptor.
\<close>

definition metadataKeys :: "Media \<Rightarrow> string set" where
  "metadataKeys m =
     fst ` set (if instanceofVideo m then resolution m else [])
     \<union> fst ` set (case options m of Some opts \<Rightarrow> opts | None \<Rightarrow> [])"

subsection \<open>The batch write-back as the spec words it\<close>

text \<open>
  The batch write-back in the spec's words: the i-th result is paired with the i-th
  input item by position, and the single-item write-back rule is applied to each pair
  in turn. It is compared below with \<open>writeBack\<close>, the loop of the source.
\<close>

fun writeBackPairs :: "(Media \<times> IMessage) list \<Rightarrow> MediaCache \<Rightarrow> error option \<times> MediaCache" where
  "writeBackPairs [] mediaCache = (None, mediaCache)"
| "writeBackPairs ((m, message) # rest) mediaCache =
     (case saveMediaFileId mediaCache (media m) (type m) message of
        (Inl e, mediaCache') \<Rightarrow> (Some e, mediaCache')
      | (Inr _, mediaCache') \<Rightarrow> writeBackPairs rest mediaCache')"

section \<open>Sample data\<close>

definition noMedia :: IMessage where
  "noMedia = \<lparr>msg_photo = None, msg_video = None, msg_video_note = None, msg_audio = None,
     msg_voice = None, msg_document = None, msg_animation = None\<rparr>"

definition photoMessage :: "string list \<Rightarrow> IMessage" where
  "photoMessage ids = noMedia\<lparr>msg_photo := Some (map (\<lambda>i. \<lparr>file_id = i\<rparr>) ids)\<rparr>"

definition videoMessage :: "string \<Rightarrow> IMessage" where
  "videoMessage i = noMedia\<lparr>msg_video := Some \<lparr>file_id = i\<rparr>\<rparr>"

definition localMedia :: "MediaFileTypes \<Rightarrow> string \<Rightarrow> Media" where
  "localMedia k p = Media k path p None (k = video) [] None"

definition failing :: "('k, 't) transport" where
  "failing url body = Inl \<lparr>description = Some ''Bad Request: chat not found'', raw = ''Error: 400''\<rparr>"

definition answering :: "'t \<Rightarrow> ('k, 't) transport" where
  "answering result url body = Inr result"

definition cover :: Media where
  "cover = Media photo path ''t.jpg'' None False [] None"

definition clip :: Media where
  "clip = Media video path ''a.mp4'' (Some cover) True [] None"

definition threeItems :: "Media list" where
  "threeItems = [localMedia photo ''a.jpg'', localMedia video ''b.mp4'', localMedia photo ''c.jpg'']"

definition threeMessages :: "IMessage list" where
  "threeMessages = [photoMessage [''A1'', ''A2''], videoMessage ''B'', photoMessage [''C'']]"

definition mixedGroup :: "Media list" where
  "mixedGroup = [localMedia photo ''a.jpg'', localMedia video ''b.mp4'', localMedia photo ''c.jpg'']"

section \<open>The write-back is an insert that never overwrites\<close>

lemma saveMediaFileId_keeps:
  assumes "mediaCache p = Some fileId"
  shows "snd (saveMediaFileId mediaCache p mediaKey message) = mediaCache"
  using assms
  by (auto simp: saveMediaFileId_def mediaCache_saveMediaFileId_def split: sum.splits)

lemma saveMediaFileId_fresh:
  assumes "mediaCache p = None" and "mediaFileInfo mediaKey message = Inr info"
  shows "saveMediaFileId mediaCache p mediaKey message = (Inr message, mediaCache(p \<mapsto> file_id info))"
  using assms
  by (simp add: saveMediaFileId_def cachedFileId_def mediaCache_getMediaFileId_def
      mediaCache_saveMediaFileId_def)

text \<open>
  C3. A write-back for a key that already has a cached identifier leaves the cache as it
  is, whatever the message. Hence, from a cache without the key \<open>p\<close>, a write-back of a
  message carrying \<open>v1\<close> followed by a write-back of a message carrying \<open>v2\<close> leaves
  \<open>v1\<close> cached for \<open>p\<close>.
\<close>

theorem write_back_never_overwrites:
  "(mediaCache p = Some fileId \<longrightarrow>
      snd (saveMediaFileId mediaCache p mediaKey message) = mediaCache) \<and>
   (mediaCache p = None \<and> mediaFileInfo key1 message1 = Inr info1 \<longrightarrow>
      mediaCache_getMediaFileId
        (snd (saveMediaFileId (snd (saveMediaFileId mediaCache p key1 message1)) p key2 message2)) p
      = Some (file_id info1))"
proof (intro conjI impI)
  assume "mediaCache p = Some fileId"
  then show "snd (saveMediaFileId mediaCache p mediaKey message) = mediaCache"
    by (rule saveMediaFileId_keeps)
next
  assume a: "mediaCache p = None \<and> mediaFileInfo key1 message1 = Inr info1"
  let ?c1 = "mediaCache(p \<mapsto> file_id info1)"
  from a have "snd (saveMediaFileId mediaCache p key1 message1) = ?c1"
    by (simp add: saveMediaFileId_fresh)
  moreover have "snd (saveMediaFileId ?c1 p key2 message2) = ?c1"
    by (rule saveMediaFileId_keeps [where fileId = "file_id info1"]) simp
  ultimately show "mediaCache_getMediaFileId
        (snd (saveMediaFileId (snd (saveMediaFileId mediaCache p key1 message1)) p key2 message2)) p
      = Some (file_id info1)"
    by (simp add: mediaCache_getMediaFileId_def)
qed

theorem write_back_never_overwrites_witness:
  "snd (saveMediaFileId [''a.jpg'' \<mapsto> ''ID0''] ''a.jpg'' photo (photoMessage [''ID9''])) = [''a.jpg'' \<mapsto> ''ID0''] \<and>
   mediaCache_getMediaFileId
     (snd (saveMediaFileId (snd (saveMediaFileId Map.empty ''a.mp4'' video (videoMessage ''V1'')))
        ''a.mp4'' video (videoMessage ''V2''))) ''a.mp4'' = Some ''V1''"
proof -
  have f: "mediaFileInfo video (videoMessage ''V1'') = Inr \<lparr>file_id = ''V1''\<rparr>"
    by (simp add: mediaFileInfo_def videoMessage_def noMedia_def)
  show ?thesis
    using write_back_never_overwrites [of "[''a.jpg'' \<mapsto> ''ID0'']" "''a.jpg''" "''ID0''" photo
        "photoMessage [''ID9'']" video "videoMessage ''V1''" "\<lparr>file_id = ''V1''\<rparr>"]
      write_back_never_overwrites [of Map.empty "''a.mp4''" "''ID0''" photo
        "photoMessage [''ID9'']" video "videoMessage ''V1''" "\<lparr>file_id = ''V1''\<rparr>" video "videoMessage ''V2''"]
      f
    by simp
qed

section \<open>Failures of the remote call\<close>

text \<open>
  C9. Without a token (undefined or the empty string) \<open>callApi\<close> gives the error and
  the transport receives nothing: the request log is unchanged.
\<close>

theorem callApi_without_token:
  "callApi post None method config sent = (Inl (noToken method), sent) \<and>
   callApi post (Some []) method config sent = (Inl (noToken method), sent)"
  by (simp add: callApi_def)

lemma sendMedia_failed:
  assumes "callApi post token method (buildFormData mediaCache (typeName mediaKey) m config) sent = (Inl e, sent')"
  shows "sendMedia post token method mediaKey m config mediaCache sent = (Inl e, mediaCache, sent')"
  using assms by (simp add: sendMedia_def)

lemma sendMediaGroup_failed:
  assumes "callApi post token ''sendMediaGroup'' (mediaGroupFormData mediaCache chatId mediaGroup moreOptions) sent = (Inl e, sent')"
  shows "sendMediaGroup post token chatId mediaGroup moreOptions mediaCache sent = (Inl e, mediaCache, sent')"
  using assms by (simp add: sendMediaGroup_def)

lemma callApi_failure:
  assumes "t \<noteq> []" and "post (apiUrl t method) body = Inl f"
  shows "callApi post (Some t) method body sent = (Inl (callError f), sent @ [(apiUrl t method, body)])"
  using assms by (simp add: callApi_def call_def)

lemma callApi_success:
  assumes "t \<noteq> []" and "post (apiUrl t method) body = Inr r"
  shows "callApi post (Some t) method body sent = (Inr r, sent @ [(apiUrl t method, body)])"
  using assms by (simp add: callApi_def call_def)

text \<open>
  C8. When the transport fails, a single send and a batch send give the wrapped error
  and the cache they started with.
\<close>

theorem failed_call_leaves_cache:
  "(t \<noteq> [] \<and> post (apiUrl t method) (buildFormData mediaCache (typeName mediaKey) m config) = Inl f \<longrightarrow>
      fst (sendMedia post (Some t) method mediaKey m config mediaCache sent) = Inl (callError f) \<and>
      fst (snd (sendMedia post (Some t) method mediaKey m config mediaCache sent)) = mediaCache) \<and>
   (t \<noteq> [] \<and> postGroup (apiUrl t ''sendMediaGroup'') (mediaGroupFormData mediaCache chatId mediaGroup moreOptions) = Inl f \<longrightarrow>
      fst (sendMediaGroup postGroup (Some t) chatId mediaGroup moreOptions mediaCache sent) = Inl (callError f) \<and>
      fst (snd (sendMediaGroup postGroup (Some t) chatId mediaGroup moreOptions mediaCache sent)) = mediaCache)"
  by (simp add: callApi_failure sendMedia_failed sendMediaGroup_failed)

theorem failed_call_leaves_cache_witness:
  "fst (sendMedia failing (Some ''T'') ''sendPhoto'' photo (localMedia photo ''a.jpg'') [] Map.empty [])
     = Inl (NestgramError ''.callApi error: Bad Request: chat not found'') \<and>
   fst (snd (sendMedia failing (Some ''T'') ''sendPhoto'' photo (localMedia photo ''a.jpg'') [] Map.empty []))
     = Map.empty \<and>
   fst (sendMediaGroup failing (Some ''T'') (JNum 7) [localMedia photo ''a.jpg''] [] Map.empty [])
     = Inl (NestgramError ''.callApi error: Bad Request: chat not found'') \<and>
   fst (snd (sendMediaGroup failing (Some ''T'') (JNum 7) [localMedia photo ''a.jpg''] [] Map.empty []))
     = Map.empty"
  using failed_call_leaves_cache [of "''T''" failing "''sendPhoto''" Map.empty photo
      "localMedia photo ''a.jpg''" "[]"
      "\<lparr>description = Some ''Bad Request: chat not found'', raw = ''Error: 400''\<rparr>" "[]"
      failing "JNum 7" "[localMedia photo ''a.jpg'']" "[]"]
  by (simp add: failing_def callError_def)

section \<open>Write-back after a single send\<close>

lemma mediaFileInfo_photo:
  assumes "msg_photo message = Some sizes" and "sizes \<noteq> []"
  shows "mediaFileInfo photo message = Inr (last sizes)"
  using assms by (simp add: mediaFileInfo_def last_conv_nth)

lemma mediaFileInfo_other:
  assumes "mediaKey \<noteq> photo" and "messageField message mediaKey = Some info"
  shows "mediaFileInfo mediaKey message = Inr info"
  using assms by (simp add: mediaFileInfo_def)

lemma sendMedia_success:
  assumes "callApi post token method (buildFormData mediaCache (typeName mediaKey) m config) sent = (Inr message, sent')"
    and "mediaCache (media m) = None"
    and "mediaFileInfo mediaKey message = Inr info"
  shows "sendMedia post token method mediaKey m config mediaCache sent
           = (Inr message, mediaCache(media m \<mapsto> file_id info), sent')"
  using assms by (simp add: sendMedia_def saveMediaFileId_fresh)

text \<open>
  C6. After a successful \<open>sendPhoto\<close> of a media whose key is not cached, with a
  response that carries a non-empty list of sizes, the cache holds for the key the
  \<open>file_id\<close> of the last size. For the other kinds, the \<open>file_id\<close> of the single
  object under the kind's name is cached.
\<close>

theorem photo_caches_last_size:
  assumes "t \<noteq> []" and "mediaCache (media m) = None"
  shows "(post (apiUrl t ''sendPhoto'')
            (buildFormData mediaCache ''photo'' m (spread (baseConfig chatId) (withKeyboard keyboard moreOptions)))
            = Inr message \<and>
          msg_photo message = Some sizes \<and> sizes \<noteq> [] \<longrightarrow>
            fst (sendPhoto post (Some t) chatId m keyboard moreOptions mediaCache sent) = Inr message \<and>
            fst (snd (sendPhoto post (Some t) chatId m keyboard moreOptions mediaCache sent))
              = mediaCache(media m \<mapsto> file_id (last sizes))) \<and>
         (post (apiUrl t method) (buildFormData mediaCache (typeName mediaKey) m config) = Inr message' \<and>
          mediaKey \<noteq> photo \<and> messageField message' mediaKey = Some info \<longrightarrow>
            fst (sendMedia post (Some t) method mediaKey m config mediaCache sent) = Inr message' \<and>
            fst (snd (sendMedia post (Some t) method mediaKey m config mediaCache sent))
              = mediaCache(media m \<mapsto> file_id info))"
proof (intro conjI impI)
  let ?config = "spread (baseConfig chatId) (withKeyboard keyboard moreOptions)"
  assume a: "post (apiUrl t ''sendPhoto'') (buildFormData mediaCache ''photo'' m ?config) = Inr message \<and>
          msg_photo message = Some sizes \<and> sizes \<noteq> []"
  then have "mediaFileInfo photo message = Inr (last sizes)"
    by (simp add: mediaFileInfo_photo)
  moreover from a assms(1)
  have "callApi post (Some t) ''sendPhoto'' (buildFormData mediaCache (typeName photo) m ?config) sent
          = (Inr message, sent @ [(apiUrl t ''sendPhoto'', buildFormData mediaCache (typeName photo) m ?config)])"
    by (simp add: callApi_success)
  ultimately have r: "sendPhoto post (Some t) chatId m keyboard moreOptions mediaCache sent
      = (Inr message, mediaCache(media m \<mapsto> file_id (last sizes)),
         sent @ [(apiUrl t ''sendPhoto'', buildFormData mediaCache (typeName photo) m ?config)])"
    unfolding sendPhoto_def using assms(2) by (intro sendMedia_success)
  show "fst (sendPhoto post (Some t) chatId m keyboard moreOptions mediaCache sent) = Inr message"
    by (simp add: r)
  show "fst (snd (sendPhoto post (Some t) chatId m keyboard moreOptions mediaCache sent))
              = mediaCache(media m \<mapsto> file_id (last sizes))"
    by (simp add: r)
next
  assume a: "post (apiUrl t method) (buildFormData mediaCache (typeName mediaKey) m config) = Inr message' \<and>
          mediaKey \<noteq> photo \<and> messageField message' mediaKey = Some info"
  then have "mediaFileInfo mediaKey message' = Inr info"
    by (simp add: mediaFileInfo_other)
  moreover from a assms(1)
  have "callApi post (Some t) method (buildFormData mediaCache (typeName mediaKey) m config) sent
          = (Inr message', sent @ [(apiUrl t method, buildFormData mediaCache (typeName mediaKey) m config)])"
    by (simp add: callApi_success)
  ultimately have r: "sendMedia post (Some t) method mediaKey m config mediaCache sent
      = (Inr message', mediaCache(media m \<mapsto> file_id info),
         sent @ [(apiUrl t method, buildFormData mediaCache (typeName mediaKey) m config)])"
    using assms(2) by (intro sendMedia_success)
  show "fst (sendMedia post (Some t) method mediaKey m config mediaCache sent) = Inr message'"
    by (simp add: r)
  show "fst (snd (sendMedia post (Some t) method mediaKey m config mediaCache sent))
              = mediaCache(media m \<mapsto> file_id info)"
    by (simp add: r)
qed

theorem photo_caches_last_size_witness:
  "fst (sendPhoto (answering (photoMessage [''S'', ''M'', ''L''])) (Some ''T'') (JNum 7)
          (localMedia photo ''a.jpg'') None [] Map.empty [])
     = Inr (photoMessage [''S'', ''M'', ''L'']) \<and>
   fst (snd (sendPhoto (answering (photoMessage [''S'', ''M'', ''L''])) (Some ''T'') (JNum 7)
          (localMedia photo ''a.jpg'') None [] Map.empty []))
     = [''a.jpg'' \<mapsto> ''L''] \<and>
   fst (snd (sendMedia (answering (videoMessage ''V1'')) (Some ''T'') ''sendVideo'' video
          (localMedia video ''a.mp4'') [] Map.empty []))
     = [''a.mp4'' \<mapsto> ''V1'']"
proof -
  have s: "msg_photo (photoMessage [''S'', ''M'', ''L''])
             = Some [\<lparr>file_id = ''S''\<rparr>, \<lparr>file_id = ''M''\<rparr>, \<lparr>file_id = ''L''\<rparr>]"
    by (simp add: photoMessage_def noMedia_def)
  have v: "messageField (videoMessage ''V1'') video = Some \<lparr>file_id = ''V1''\<rparr>"
    by (simp add: videoMessage_def noMedia_def)
  have k: "media (localMedia photo ''a.jpg'') = ''a.jpg''" "media (localMedia video ''a.mp4'') = ''a.mp4''"
    by (simp_all add: localMedia_def)
  show ?thesis
    using photo_caches_last_size [of "''T''" Map.empty "localMedia photo ''a.jpg''"
        "answering (photoMessage [''S'', ''M'', ''L''])" "JNum 7" None "[]"
        "photoMessage [''S'', ''M'', ''L'']"
        "[\<lparr>file_id = ''S''\<rparr>, \<lparr>file_id = ''M''\<rparr>, \<lparr>file_id = ''L''\<rparr>]" "[]"
        "''sendPhoto''" photo "[]" "photoMessage [''S'', ''M'', ''L'']" "\<lparr>file_id = ''L''\<rparr>"]
      photo_caches_last_size [of "''T''" Map.empty "localMedia video ''a.mp4''"
        "answering (videoMessage ''V1'')" "JNum 7" None "[]"
        "videoMessage ''V1''" "[]" "[]"
        "''sendVideo''" video "[]" "videoMessage ''V1''" "\<lparr>file_id = ''V1''\<rparr>"]
      s v k
    by (simp add: answering_def)
qed

section \<open>Configuration fields in the form\<close>

lemma appendConfig_eq:
  "appendConfig formData config
     = formData @ map (\<lambda>(k, d). (k, fieldValue d)) (filter (\<lambda>(k, d). cfg_truthy d) config)"
  unfolding appendConfig_def
  by (induction config arbitrary: formData) (auto simp: appendField_def)

lemma buildAttachFormData_eq:
  "buildAttachFormData config
     = map (\<lambda>(k, d). (k, fieldValue d)) (filter (\<lambda>(k, d). cfg_truthy d) config)"
  by (simp add: buildAttachFormData_def appendConfig_eq)

lemma appendMediaToFormData_append:
  "appendMediaToFormData formData key x = formData @ appendMediaToFormData [] key x"
  by (cases x) auto

lemma buildFormData_eq:
  "buildFormData mediaCache fromMediaKey m config
     = appendMediaToFormData [] fromMediaKey (cachedOrMedia mediaCache m)
       @ (case config_thumb config of
            Some t \<Rightarrow> appendMediaToFormData [] ''thumb'' (cachedOrMedia mediaCache t)
          | None \<Rightarrow> [])
       @ map (\<lambda>(k, d). (k, fieldValue d)) (filter (\<lambda>(k, d). cfg_truthy d) config)"
  by (cases "config_thumb config")
     (simp_all add: buildFormData_def appendConfig_eq Let_def
        appendMediaToFormData_append [of "appendMediaToFormData [] fromMediaKey (cachedOrMedia mediaCache m)"])

lemma config_thumb_falsy:
  assumes "\<not> cfg_truthy d" and "\<not> cfg_truthy d'"
  shows "config_thumb (xs @ (k, d) # ys) = config_thumb (xs @ (k, d') # ys)"
proof (cases "map_of xs ''thumb''")
  case (Some a)
  then show ?thesis by (simp add: config_thumb_def map_add_def)
next
  case None
  with assms show ?thesis
    by (cases d; cases d') (auto simp: config_thumb_def map_add_def)
qed

lemma config_thumb_absent:
  assumes "\<not> cfg_truthy d" and "distinct (map fst (xs @ (k, d) # ys))"
  shows "config_thumb (xs @ (k, d) # ys) = config_thumb (xs @ ys)"
proof (cases "map_of xs ''thumb''")
  case (Some a)
  then show ?thesis by (simp add: config_thumb_def map_add_def)
next
  case None
  show ?thesis
  proof (cases "k = ''thumb''")
    case True
    with assms(2) have "''thumb'' \<notin> fst ` set ys" by auto
    then have "map_of ys ''thumb'' = None" by (simp add: map_of_eq_None_iff)
    with None True assms(1) show ?thesis
      by (cases d) (auto simp: config_thumb_def map_add_def)
  next
    case False
    with None show ?thesis by (simp add: config_thumb_def map_add_def)
  qed
qed

text \<open>
  C7. A field of the configuration whose value is undefined, null or the empty string
  leaves no trace in the form: both builders give the form they give without the field,
  and the form of \<open>buildAttachFormData\<close> has no part of that name. No part carries an
  encoding of undefined or null.
\<close>

theorem absent_fields_are_omitted:
  assumes "distinct (map fst (xs @ (k, d) # ys))"
    and "d = V JUndefined \<or> d = V JNull \<or> d = V (JStr [])"
  shows "buildAttachFormData (xs @ (k, d) # ys) = buildAttachFormData (xs @ ys) \<and>
         buildFormData mediaCache fromMediaKey m (xs @ (k, d) # ys)
           = buildFormData mediaCache fromMediaKey m (xs @ ys) \<and>
         k \<notin> fst ` set (buildAttachFormData (xs @ (k, d) # ys)) \<and>
         (k', AsIs JUndefined) \<notin> set (buildAttachFormData (xs @ (k, d) # ys)) \<and>
         (k', AsIs JNull) \<notin> set (buildAttachFormData (xs @ (k, d) # ys)) \<and>
         (k', JsonText (V JNull)) \<notin> set (buildAttachFormData (xs @ (k, d) # ys))"
proof -
  from assms(2) have f: "\<not> cfg_truthy d" by auto
  have 1: "buildAttachFormData (xs @ (k, d) # ys) = buildAttachFormData (xs @ ys)"
    using f by (simp add: buildAttachFormData_eq)
  have 2: "buildFormData mediaCache fromMediaKey m (xs @ (k, d) # ys)
           = buildFormData mediaCache fromMediaKey m (xs @ ys)"
    using f config_thumb_absent [OF f assms(1)] by (simp add: buildFormData_eq)
  from assms(1) have "k \<notin> fst ` set (xs @ ys)" by auto
  then have 3: "k \<notin> fst ` set (buildAttachFormData (xs @ (k, d) # ys))"
    unfolding 1 by (force simp: buildAttachFormData_eq)
  have 4: "(k', AsIs JUndefined) \<notin> set (buildAttachFormData c)"
    "(k', AsIs JNull) \<notin> set (buildAttachFormData c)"
    "(k', JsonText (V JNull)) \<notin> set (buildAttachFormData c)" for c
    by (auto simp: buildAttachFormData_eq fieldValue_def split: if_splits cfgval.splits)
  from 1 2 3 4 show ?thesis by blast
qed

theorem absent_fields_are_omitted_witness:
  "buildAttachFormData [(''chat_id'', V (JNum 7)), (''caption'', V JUndefined)]
     = [(''chat_id'', AsIs (JNum 7))] \<and>
   buildFormData Map.empty ''photo'' (localMedia photo ''a.jpg'')
       [(''chat_id'', V (JNum 7)), (''caption'', V JUndefined)]
     = [(''photo'', ReadStream ''a.jpg''), (''chat_id'', AsIs (JNum 7))] \<and>
   ''caption'' \<notin> fst ` set (buildAttachFormData [(''chat_id'', V (JNum 7)), (''caption'', V JUndefined)])"
proof -
  have a: "buildAttachFormData [(''chat_id'', V (JNum 7))] = [(''chat_id'', AsIs (JNum 7))]"
    by (simp add: buildAttachFormData_def appendConfig_def appendField_def fieldValue_def)
  have b: "buildFormData Map.empty ''photo'' (localMedia photo ''a.jpg'') [(''chat_id'', V (JNum 7))]
     = [(''photo'', ReadStream ''a.jpg''), (''chat_id'', AsIs (JNum 7))]"
    by (simp add: buildFormData_def appendConfig_def appendField_def fieldValue_def config_thumb_def
        cachedOrMedia_def cachedFileId_def mediaCache_getMediaFileId_def localMedia_def)
  show ?thesis
    using absent_fields_are_omitted [of "[(''chat_id'', V (JNum 7))]" "''caption''" "V JUndefined" "[]"
        Map.empty "''photo''" "localMedia photo ''a.jpg''" "''x''"] a b
    by simp
qed

text \<open>
  C10. A field whose value is falsy (undefined, null, false, 0 or the empty string) is
  dropped by both builders exactly as an undefined one: the form is the one built with
  undefined in its place, and for \<open>buildAttachFormData\<close> the one built without the
  field. A value appended as it is by \<open>buildAttachFormData\<close> is therefore never falsy.
\<close>

theorem falsy_fields_are_omitted:
  "(\<not> cfg_truthy d \<longrightarrow>
      buildAttachFormData (xs @ (k, d) # ys) = buildAttachFormData (xs @ (k, V JUndefined) # ys) \<and>
      buildAttachFormData (xs @ (k, d) # ys) = buildAttachFormData (xs @ ys) \<and>
      buildFormData mediaCache fromMediaKey m (xs @ (k, d) # ys)
        = buildFormData mediaCache fromMediaKey m (xs @ (k, V JUndefined) # ys)) \<and>
   ((k', AsIs v) \<in> set (buildAttachFormData config) \<longrightarrow> truthy v) \<and>
   \<not> cfg_truthy (V (JBool False)) \<and> \<not> cfg_truthy (V (JNum 0)) \<and> \<not> cfg_truthy (V (JStr []))"
proof -
  have 1: "buildAttachFormData (xs @ (k, d) # ys) = buildAttachFormData (xs @ (k, V JUndefined) # ys)"
    and 2: "buildAttachFormData (xs @ (k, d) # ys) = buildAttachFormData (xs @ ys)"
    and 3: "buildFormData mediaCache fromMediaKey m (xs @ (k, d) # ys)
        = buildFormData mediaCache fromMediaKey m (xs @ (k, V JUndefined) # ys)"
    if f: "\<not> cfg_truthy d"
    using f config_thumb_falsy [OF f, of "V JUndefined" xs k ys]
    by (simp_all add: buildAttachFormData_eq buildFormData_eq)
  have 4: "truthy v" if "(k', AsIs v) \<in> set (buildAttachFormData config)"
    using that
    by (auto simp: buildAttachFormData_eq fieldValue_def split: if_splits cfgval.splits)
  from 1 2 3 4 show ?thesis by simp
qed

theorem falsy_fields_are_omitted_witness:
  "buildAttachFormData [(''chat_id'', V (JNum 7)), (''disable_notification'', V (JBool False)),
       (''reply_to_message_id'', V (JNum 0)), (''caption'', V (JStr []))]
     = [(''chat_id'', AsIs (JNum 7))] \<and>
   buildFormData Map.empty ''photo'' (localMedia photo ''a.jpg'')
       [(''chat_id'', V (JNum 7)), (''disable_notification'', V (JBool False))]
     = buildFormData Map.empty ''photo'' (localMedia photo ''a.jpg'')
       [(''chat_id'', V (JNum 7)), (''disable_notification'', V JUndefined)] \<and>
   truthy (JNum 7)"
proof -
  have a: "buildAttachFormData [(''chat_id'', V (JNum 7)), (''disable_notification'', V (JBool False)),
       (''reply_to_message_id'', V (JNum 0)), (''caption'', V (JStr []))]
     = [(''chat_id'', AsIs (JNum 7))]"
    by (simp add: buildAttachFormData_def appendConfig_def appendField_def fieldValue_def)
  show ?thesis
    using a
      falsy_fields_are_omitted [of "V (JBool False)" "[(''chat_id'', V (JNum 7))]"
        "''disable_notification''" "[]" Map.empty "''photo''" "localMedia photo ''a.jpg''"
        "''chat_id''" "JNum 7" "[(''chat_id'', V (JNum 7))]"]
    by simp
qed

section \<open>Single-item forms: the thumbnail and cached media\<close>

lemma filter_key_distinct:
  assumes "distinct (map fst xs)" and "(k, v) \<in> set xs"
  shows "filter (\<lambda>(k', d). k' = k) xs = [(k, v)]"
  using assms
proof (induction xs)
  case Nil
  then show ?case by simp
next
  case (Cons x xs)
  show ?case
  proof (cases "x = (k, v)")
    case True
    with Cons.prems(1) have "k \<notin> fst ` set xs" by auto
    then have "filter (\<lambda>(k', d). k' = k) xs = []"
      by (force simp: filter_empty_conv)
    with True show ?thesis by simp
  next
    case False
    with Cons.prems have in_xs: "(k, v) \<in> set xs" by simp
    with Cons.prems(1) have "fst x \<noteq> k" by (cases x) force
    with Cons in_xs show ?thesis by (cases x) simp
  qed
qed

lemma appendMediaToFormData_key:
  "\<exists>v. appendMediaToFormData [] key x = [(key, v)]"
  by (cases x) auto

text \<open>
  Whenever the configuration carries a thumbnail, the form has two parts named
  \<open>thumb\<close>: the one of the resolve-or-attach step, and the one the loop over the keys
  of the configuration appends, which is the JSON text of the media object.
\<close>

lemma buildFormData_two_thumbs:
  assumes "config_thumb config = Some t" and "fromMediaKey \<noteq> ''thumb''"
    and "distinct (map fst config)"
  shows "map snd (filter (\<lambda>(k, v). k = ''thumb'') (buildFormData mediaCache fromMediaKey m config))
           = [snd (hd (appendMediaToFormData [] ''thumb'' (cachedOrMedia mediaCache t))), JsonText (M t)]"
proof -
  from assms(1) have "map_of config ''thumb'' = Some (M t)"
    by (auto simp: config_thumb_def split: option.splits cfgval.splits)
  then have "(''thumb'', M t) \<in> set config" by (rule map_of_SomeD)
  with assms(3) have c: "filter (\<lambda>(k', d). k' = ''thumb'') config = [(''thumb'', M t)]"
    by (rule filter_key_distinct)
  have "filter (\<lambda>(k, v). k = ''thumb'')
          (map (\<lambda>(k, d). (k, fieldValue d)) (filter (\<lambda>(k, d). cfg_truthy d) config))
        = map (\<lambda>(k, d). (k, fieldValue d))
            (filter (\<lambda>(k, d). cfg_truthy d) (filter (\<lambda>(k', d). k' = ''thumb'') config))"
    by (induction config) auto
  also have "\<dots> = [(''thumb'', JsonText (M t))]"
    by (simp add: c fieldValue_def)
  finally have 3: "filter (\<lambda>(k, v). k = ''thumb'')
          (map (\<lambda>(k, d). (k, fieldValue d)) (filter (\<lambda>(k, d). cfg_truthy d) config))
        = [(''thumb'', JsonText (M t))]" .
  obtain v where 1: "appendMediaToFormData [] fromMediaKey (cachedOrMedia mediaCache m) = [(fromMediaKey, v)]"
    using appendMediaToFormData_key by blast
  obtain w where 2: "appendMediaToFormData [] ''thumb'' (cachedOrMedia mediaCache t) = [(''thumb'', w)]"
    using appendMediaToFormData_key by blast
  show ?thesis
    using assms(1,2) by (simp add: buildFormData_eq 1 2 3)
qed

text \<open>
  C5. \<open>sendVideo\<close> of a path-backed video with a path-backed thumbnail, nothing cached:
  the form handed to the transport has the part \<open>thumb\<close> twice, first as the stream of
  the thumbnail and then, from the loop over the configuration, as the JSON text of the
  thumbnail object.
\<close>

theorem thumb_is_appended_twice:
  "buildFormData Map.empty ''video'' clip
       [(''chat_id'', V (JNum 7)), (''parse_mode'', V (JStr ''HTML'')), (''thumb'', M cover)]
     = [(''video'', ReadStream ''a.mp4''), (''thumb'', ReadStream ''t.jpg''),
        (''chat_id'', AsIs (JNum 7)), (''parse_mode'', AsIs (JStr ''HTML'')),
        (''thumb'', JsonText (M cover))] \<and>
   snd (snd (sendVideo (answering (videoMessage ''V1'')) (Some ''T'') (JNum 7) clip None [] Map.empty []))
     = [(apiUrl ''T'' ''sendVideo'',
         [(''video'', ReadStream ''a.mp4''), (''thumb'', ReadStream ''t.jpg''),
          (''chat_id'', AsIs (JNum 7)), (''parse_mode'', AsIs (JStr ''HTML'')),
          (''thumb'', JsonText (M cover))])]"
  by (simp add: buildFormData_def appendConfig_def appendField_def fieldValue_def config_thumb_def
      cachedOrMedia_def cachedFileId_def mediaCache_getMediaFileId_def clip_def cover_def
      sendVideo_def sendMedia_def callApi_def call_def answering_def baseConfig_def thumbValue_def
      resolutionConfig_def withKeyboard_def spread_def saveMediaFileId_def mediaFileInfo_def
      videoMessage_def noMedia_def mediaCache_saveMediaFileId_def)

text \<open>
  C4, as the claim states it, fails when the key is cached with the empty string (the
  entry a write-back leaves when the response carries an empty \<open>file_id\<close>): the
  looked-up value is falsy, so the media object is taken and its stream is attached.
\<close>

theorem cached_empty_identifier_counterexample:
  "snd (saveMediaFileId Map.empty ''a.jpg'' photo (photoMessage [''''])) = [''a.jpg'' \<mapsto> ''''] \<and>
   mediaCache_getMediaFileId [''a.jpg'' \<mapsto> ''''] (media (localMedia photo ''a.jpg'')) = Some '''' \<and>
   buildFormData [''a.jpg'' \<mapsto> ''''] ''photo'' (localMedia photo ''a.jpg'') []
     = [(''photo'', ReadStream ''a.jpg'')]"
  by (simp add: buildFormData_def appendConfig_def config_thumb_def
      cachedOrMedia_def cachedFileId_def mediaCache_getMediaFileId_def localMedia_def
      saveMediaFileId_def mediaFileInfo_def photoMessage_def noMedia_def mediaCache_saveMediaFileId_def)

lemma cachedFileId_Some:
  "cachedFileId mediaCache p = Some fileId
     \<longleftrightarrow> mediaCache_getMediaFileId mediaCache p = Some fileId \<and> fileId \<noteq> []"
  by (auto simp: cachedFileId_def split: option.splits)

lemma cachedFileId_None:
  "cachedFileId mediaCache p = None
     \<longleftrightarrow> mediaCache_getMediaFileId mediaCache p = None \<or> mediaCache_getMediaFileId mediaCache p = Some []"
  by (auto simp: cachedFileId_def split: option.splits)

text \<open>
  C4, amended. When the key of the primary media is cached with a non-empty identifier,
  the first part of the form is the media field holding that identifier as a string; the
  same holds for the second part and the thumbnail of the configuration. A stream occurs
  in the form only as the media field of a path-backed media, or as the \<open>thumb\<close> part of
  a path-backed thumbnail, whose key has no non-empty identifier in the cache. On such a
  miss the media field holds the payload of the media: the stream of its file when it is
  path-backed, its \<open>media\<close> value as it is otherwise.
\<close>

theorem cached_media_is_sent_by_identifier:
  "(mediaCache_getMediaFileId mediaCache (media m) = Some fileId \<and> fileId \<noteq> [] \<longrightarrow>
      hd (buildFormData mediaCache fromMediaKey m config) = (fromMediaKey, AsIs (JStr fileId))) \<and>
   (config_thumb config = Some t \<and>
    mediaCache_getMediaFileId mediaCache (media t) = Some thumbId \<and> thumbId \<noteq> [] \<longrightarrow>
      buildFormData mediaCache fromMediaKey m config ! 1 = (''thumb'', AsIs (JStr thumbId))) \<and>
   ((key, ReadStream p) \<in> set (buildFormData mediaCache fromMediaKey m config) \<longrightarrow>
      (key = fromMediaKey \<and> p = media m \<and> passType m = path \<and>
       cachedFileId mediaCache (media m) = None) \<or>
      (key = ''thumb'' \<and> (\<exists>t'. config_thumb config = Some t' \<and> p = media t' \<and> passType t' = path \<and>
       cachedFileId mediaCache (media t') = None))) \<and>
   (cachedFileId mediaCache (media m) = None \<longrightarrow>
      hd (buildFormData mediaCache fromMediaKey m config) = (fromMediaKey, payload m))"
proof (intro conjI impI)
  assume "mediaCache_getMediaFileId mediaCache (media m) = Some fileId \<and> fileId \<noteq> []"
  then have "cachedOrMedia mediaCache m = Inl fileId"
    by (simp add: cachedOrMedia_def cachedFileId_def)
  then show "hd (buildFormData mediaCache fromMediaKey m config) = (fromMediaKey, AsIs (JStr fileId))"
    by (simp add: buildFormData_eq)
next
  assume a: "config_thumb config = Some t \<and>
    mediaCache_getMediaFileId mediaCache (media t) = Some thumbId \<and> thumbId \<noteq> []"
  then have "cachedOrMedia mediaCache t = Inl thumbId"
    by (simp add: cachedOrMedia_def cachedFileId_def)
  moreover obtain v where "appendMediaToFormData [] fromMediaKey (cachedOrMedia mediaCache m) = [(fromMediaKey, v)]"
    using appendMediaToFormData_key by blast
  ultimately show "buildFormData mediaCache fromMediaKey m config ! 1 = (''thumb'', AsIs (JStr thumbId))"
    using a by (simp add: buildFormData_eq)
next
  assume a: "(key, ReadStream p) \<in> set (buildFormData mediaCache fromMediaKey m config)"
  have cfg: "(key, ReadStream p) \<notin> set (map (\<lambda>(k, d). (k, fieldValue d)) (filter (\<lambda>(k, d). cfg_truthy d) config))"
    by (auto simp: fieldValue_def split: if_splits cfgval.splits)
  have one: "(key, ReadStream p) \<in> set (appendMediaToFormData [] k (cachedOrMedia mediaCache x))
      \<Longrightarrow> key = k \<and> p = media x \<and> passType x = path \<and> cachedFileId mediaCache (media x) = None" for k x
    by (auto simp: cachedOrMedia_def split: option.splits if_splits)
  from a cfg consider
      "(key, ReadStream p) \<in> set (appendMediaToFormData [] fromMediaKey (cachedOrMedia mediaCache m))"
    | t' where "config_thumb config = Some t'"
        "(key, ReadStream p) \<in> set (appendMediaToFormData [] ''thumb'' (cachedOrMedia mediaCache t'))"
    by (cases "config_thumb config") (auto simp: buildFormData_eq)
  then show "(key = fromMediaKey \<and> p = media m \<and> passType m = path \<and>
       cachedFileId mediaCache (media m) = None) \<or>
      (key = ''thumb'' \<and> (\<exists>t'. config_thumb config = Some t' \<and> p = media t' \<and> passType t' = path \<and>
       cachedFileId mediaCache (media t') = None))"
  proof cases
    case 1
    then show ?thesis using one by blast
  next
    case 2
    then show ?thesis using one by blast
  qed
next
  assume "cachedFileId mediaCache (media m) = None"
  then show "hd (buildFormData mediaCache fromMediaKey m config) = (fromMediaKey, payload m)"
    by (simp add: buildFormData_eq cachedOrMedia_def payload_def)
qed

theorem cached_media_is_sent_by_identifier_witness:
  "hd (buildFormData [''a.mp4'' \<mapsto> ''V1'', ''t.jpg'' \<mapsto> ''P1''] ''video'' clip [(''thumb'', M cover)])
     = (''video'', AsIs (JStr ''V1'')) \<and>
   buildFormData [''a.mp4'' \<mapsto> ''V1'', ''t.jpg'' \<mapsto> ''P1''] ''video'' clip [(''thumb'', M cover)] ! 1
     = (''thumb'', AsIs (JStr ''P1'')) \<and>
   (''video'', ReadStream ''a.mp4'') \<in> set (buildFormData Map.empty ''video'' clip [(''thumb'', M cover)]) \<and>
   cachedFileId Map.empty (media clip) = None \<and>
   hd (buildFormData Map.empty ''video'' clip [(''thumb'', M cover)]) = (''video'', ReadStream ''a.mp4'')"
proof -
  have k: "media clip = ''a.mp4''" "media cover = ''t.jpg''" "passType clip = path"
    by (simp_all add: clip_def cover_def)
  have t: "config_thumb [(''thumb'', M cover)] = Some cover"
    by (simp add: config_thumb_def)
  have s: "(''video'', ReadStream ''a.mp4'') \<in> set (buildFormData Map.empty ''video'' clip [(''thumb'', M cover)])"
    by (simp add: buildFormData_eq cachedOrMedia_def cachedFileId_def mediaCache_getMediaFileId_def k t)
  have n: "cachedFileId Map.empty ''a.mp4'' = None"
    by (simp add: cachedFileId_def mediaCache_getMediaFileId_def)
  show ?thesis
    using cached_media_is_sent_by_identifier [of "[''a.mp4'' \<mapsto> ''V1'', ''t.jpg'' \<mapsto> ''P1'']" clip "''V1''"
        "''video''" "[(''thumb'', M cover)]" cover "''P1''" "''video''" "''a.mp4''"]
      cached_media_is_sent_by_identifier [of Map.empty clip "''V1''"
        "''video''" "[(''thumb'', M cover)]" cover "''P1''" "''video''" "''a.mp4''"]
      k t s n
    by (simp add: mediaCache_getMediaFileId_def payload_def)
qed

section \<open>Write-back after a batch send\<close>

lemma indexOf_nth:
  assumes "distinct (map fst ys)" and "i < length ys"
  shows "indexOf ys (ys ! i) = Some i"
  using assms
proof (induction ys arbitrary: i)
  case Nil
  then show ?case by simp
next
  case (Cons y ys)
  show ?case
  proof (cases i)
    case 0
    then show ?thesis by simp
  next
    case (Suc i')
    with Cons.prems have "i' < length ys" by simp
    then have "ys ! i' \<in> set ys" by simp
    with Cons.prems(1) have "fst y \<noteq> fst (ys ! i')" by force
    moreover from Cons.prems \<open>i' < length ys\<close> have "indexOf ys (ys ! i') = Some i'"
      by (intro Cons.IH) simp_all
    ultimately show ?thesis using Suc by simp
  qed
qed

lemma objects_distinct: "distinct (map fst (objects xs))"
  by (simp add: objects_def)

lemma objects_nth: "i < length xs \<Longrightarrow> objects xs ! i = (i, xs ! i)"
  by (simp add: objects_def nth_enumerate_eq)

lemma length_objects: "length (objects xs) = length xs"
  by (simp add: objects_def)

lemma writeBack_drop:
  assumes "length result \<le> length mediaGroup" and "k \<le> length result"
  shows "writeBack mediaGroup (objects result) (drop k (objects result)) mediaCache
           = writeBackPairs (drop k (zip mediaGroup result)) mediaCache"
  using assms(2)
proof (induction "length result - k" arbitrary: k mediaCache)
  case 0
  then show ?case by (simp add: length_objects)
next
  case (Suc n)
  then have k: "k < length result" by simp
  with assms(1) have km: "k < length mediaGroup" by simp
  from k have d1: "drop k (objects result) = (k, result ! k) # drop (Suc k) (objects result)"
    by (simp add: length_objects objects_nth flip: Cons_nth_drop_Suc)
  from k km have d2: "drop k (zip mediaGroup result)
      = (mediaGroup ! k, result ! k) # drop (Suc k) (zip mediaGroup result)"
    by (simp flip: Cons_nth_drop_Suc)
  from k have "indexOf (objects result) (objects result ! k) = Some k"
    by (intro indexOf_nth objects_distinct) (simp add: length_objects)
  with k have i: "indexOf (objects result) (k, result ! k) = Some k"
    by (simp add: objects_nth)
  from km have a: "at mediaGroup (Some k) = Some (mediaGroup ! k)"
    by (simp add: at_def)
  from Suc.hyps(2) k have n: "n = length result - Suc k" by simp
  from k have "Suc k \<le> length result" by simp
  note IH = Suc.hyps(1) [OF n this]
  show ?case
    by (simp add: d1 d2 i a IH split: prod.splits sum.splits)
qed

lemma writeBack_positional:
  assumes "length result \<le> length mediaGroup"
  shows "writeBack mediaGroup (objects result) (objects result) mediaCache
           = writeBackPairs (zip mediaGroup result) mediaCache"
  using writeBack_drop [OF assms, of 0 mediaCache] by simp

lemma saveMediaFileId_ok:
  assumes "mediaFileInfo mediaKey message = Inr info"
  shows "fst (saveMediaFileId mediaCache p mediaKey message) = Inr message"
  using assms by (simp add: saveMediaFileId_def)

lemma saveMediaFileId_other_key:
  assumes "q \<noteq> p"
  shows "snd (saveMediaFileId mediaCache q mediaKey message) p = mediaCache p"
  using assms
  by (auto simp: saveMediaFileId_def mediaCache_saveMediaFileId_def split: sum.splits option.splits)

lemma saveMediaFileId_preserves:
  assumes "mediaCache p = Some v"
  shows "snd (saveMediaFileId mediaCache q mediaKey message) p = Some v"
proof (cases "q = p")
  case True
  with assms show ?thesis by (simp add: saveMediaFileId_keeps)
next
  case False
  with assms show ?thesis by (simp add: saveMediaFileId_other_key)
qed

lemma writeBackPairs_preserves:
  assumes "mediaCache p = Some v"
  shows "snd (writeBackPairs ps mediaCache) p = Some v"
  using assms
proof (induction ps arbitrary: mediaCache)
  case Nil
  then show ?case by simp
next
  case (Cons x ps)
  obtain m message where x: "x = (m, message)" by (cases x)
  obtain r c' where s: "saveMediaFileId mediaCache (media m) (type m) message = (r, c')"
    by (cases "saveMediaFileId mediaCache (media m) (type m) message")
  have "c' p = Some v"
    using saveMediaFileId_preserves [where mediaCache = mediaCache and p = p and v = v
        and q = "media m" and mediaKey = "type m" and message = message] Cons.prems s
    by simp
  then show ?case
    using Cons.IH [where mediaCache = c'] by (cases r) (simp_all add: x s)
qed

lemma writeBackPairs_ok:
  assumes "map (\<lambda>(m, message). mediaFileInfo (type m) message) ps = map Inr infos"
  shows "fst (writeBackPairs ps mediaCache) = None"
  using assms
proof (induction ps arbitrary: mediaCache infos)
  case Nil
  then show ?case by simp
next
  case (Cons x ps)
  obtain m message where x: "x = (m, message)" by (cases x)
  from Cons.prems x obtain info infos' where
    i: "mediaFileInfo (type m) message = Inr info" "infos = info # infos'"
      "map (\<lambda>(m, message). mediaFileInfo (type m) message) ps = map Inr infos'"
    by (cases infos) auto
  obtain r c' where s: "saveMediaFileId mediaCache (media m) (type m) message = (r, c')"
    by (cases "saveMediaFileId mediaCache (media m) (type m) message")
  with saveMediaFileId_ok [OF i(1), of mediaCache "media m"] have "r = Inr message" by simp
  then show ?case
    using Cons.IH [where mediaCache = c' and infos = infos'] i(3) by (simp add: x s)
qed

lemma writeBackPairs_first:
  assumes "map (\<lambda>(m, message). mediaFileInfo (type m) message) ps = map Inr infos"
    and "i < length ps"
    and "mediaCache (media (fst (ps ! i))) = None"
    and "\<forall>j<i. media (fst (ps ! j)) \<noteq> media (fst (ps ! i))"
  shows "snd (writeBackPairs ps mediaCache) (media (fst (ps ! i))) = Some (file_id (infos ! i))"
  using assms
proof (induction ps arbitrary: mediaCache infos i)
  case Nil
  then show ?case by simp
next
  case (Cons x ps)
  obtain m message where x: "x = (m, message)" by (cases x)
  from Cons.prems(1) x obtain info infos' where
    inf: "mediaFileInfo (type m) message = Inr info" "infos = info # infos'"
      "map (\<lambda>(m, message). mediaFileInfo (type m) message) ps = map Inr infos'"
    by (cases infos) auto
  show ?case
  proof (cases i)
    case 0
    with Cons.prems(3) x have "mediaCache (media m) = None" by simp
    then have s: "saveMediaFileId mediaCache (media m) (type m) message
        = (Inr message, mediaCache(media m \<mapsto> file_id info))"
      using inf(1) by (rule saveMediaFileId_fresh)
    have "snd (writeBackPairs ps (mediaCache(media m \<mapsto> file_id info))) (media m) = Some (file_id info)"
      by (rule writeBackPairs_preserves) simp
    with 0 show ?thesis by (simp add: x s inf(2))
  next
    case (Suc i')
    let ?p = "media (fst (ps ! i'))"
    from Cons.prems(4) Suc x have ne: "media m \<noteq> ?p" by auto
    obtain r c' where s: "saveMediaFileId mediaCache (media m) (type m) message = (r, c')"
      by (cases "saveMediaFileId mediaCache (media m) (type m) message")
    with saveMediaFileId_ok [OF inf(1), of mediaCache "media m"] have r: "r = Inr message" by simp
    from saveMediaFileId_other_key [OF ne, of mediaCache "type m" message] s Cons.prems(3) Suc
    have c': "c' ?p = None" by simp
    from Cons.prems(2) Suc have l: "i' < length ps" by simp
    from Cons.prems(4) Suc have d: "\<forall>j<i'. media (fst (ps ! j)) \<noteq> ?p" by auto
    from Cons.IH [where mediaCache = c' and infos = infos' and i = i'] inf(3) l c' d
    have "snd (writeBackPairs ps c') ?p = Some (file_id (infos' ! i'))" by blast
    with Suc show ?thesis
      by (simp add: x s r inf(2))
  qed
qed

text \<open>
  C2. After a successful \<open>sendMediaGroup\<close> whose response has one message per item, each
  carrying the media field of its item, the call returns the messages, the cache is the
  one the positional pairing of items and messages gives, and for every position \<open>i\<close>
  whose key was not cached (neither before the call nor by an earlier item of the batch)
  the key of item \<open>i\<close> is bound to the identifier of message \<open>i\<close>.
\<close>

theorem media_group_write_back_by_position:
  assumes "t \<noteq> []"
    and "post (apiUrl t ''sendMediaGroup'') (mediaGroupFormData mediaCache chatId mediaGroup moreOptions)
           = Inr result"
    and "length result = length mediaGroup"
    and "map (\<lambda>(m, message). mediaFileInfo (type m) message) (zip mediaGroup result) = map Inr infos"
  shows "fst (sendMediaGroup post (Some t) chatId mediaGroup moreOptions mediaCache sent) = Inr result \<and>
         fst (snd (sendMediaGroup post (Some t) chatId mediaGroup moreOptions mediaCache sent))
           = snd (writeBackPairs (zip mediaGroup result) mediaCache) \<and>
         (i < length mediaGroup \<and> mediaCache (media (mediaGroup ! i)) = None \<and>
          (\<forall>j<i. media (mediaGroup ! j) \<noteq> media (mediaGroup ! i)) \<longrightarrow>
            mediaCache_getMediaFileId
              (fst (snd (sendMediaGroup post (Some t) chatId mediaGroup moreOptions mediaCache sent)))
              (media (mediaGroup ! i))
            = Some (file_id (infos ! i)))"
proof -
  let ?form = "mediaGroupFormData mediaCache chatId mediaGroup moreOptions"
  let ?ps = "zip mediaGroup result"
  from assms(1,2) have c: "callApi post (Some t) ''sendMediaGroup'' ?form sent
      = (Inr result, sent @ [(apiUrl t ''sendMediaGroup'', ?form)])"
    by (rule callApi_success)
  from assms(3) have w: "writeBack mediaGroup (objects result) (objects result) mediaCache
      = writeBackPairs ?ps mediaCache"
    by (intro writeBack_positional) simp
  have ok: "fst (writeBackPairs ?ps mediaCache) = None"
    using assms(4) by (rule writeBackPairs_ok)
  obtain c' where p: "writeBackPairs ?ps mediaCache = (None, c')"
    using ok by (cases "writeBackPairs ?ps mediaCache") simp
  have r: "sendMediaGroup post (Some t) chatId mediaGroup moreOptions mediaCache sent
      = (Inr result, c', sent @ [(apiUrl t ''sendMediaGroup'', ?form)])"
    by (simp add: sendMediaGroup_def c w p)
  have "c' (media (mediaGroup ! i)) = Some (file_id (infos ! i))"
    if i: "i < length mediaGroup" and n: "mediaCache (media (mediaGroup ! i)) = None"
      and d: "\<forall>j<i. media (mediaGroup ! j) \<noteq> media (mediaGroup ! i)"
  proof -
    from i assms(3) have l: "i < length ?ps" by simp
    from i assms(3) have f: "fst (?ps ! i) = mediaGroup ! i" by simp
    from d i assms(3) have d': "\<forall>j<i. media (fst (?ps ! j)) \<noteq> media (fst (?ps ! i))" by simp
    from n f have n': "mediaCache (media (fst (?ps ! i))) = None" by simp
    from writeBackPairs_first [where mediaCache = mediaCache and ps = ?ps and infos = infos and i = i]
      assms(4) l n' d'
    have "snd (writeBackPairs ?ps mediaCache) (media (fst (?ps ! i))) = Some (file_id (infos ! i))"
      by blast
    with f p show ?thesis by simp
  qed
  then show ?thesis by (simp add: r p mediaCache_getMediaFileId_def)
qed

theorem media_group_write_back_by_position_witness:
  "fst (sendMediaGroup (answering threeMessages) (Some ''T'') (JNum 7) threeItems [] Map.empty [])
     = Inr threeMessages \<and>
   mediaCache_getMediaFileId
     (fst (snd (sendMediaGroup (answering threeMessages) (Some ''T'') (JNum 7) threeItems [] Map.empty [])))
     ''a.jpg'' = Some ''A2'' \<and>
   mediaCache_getMediaFileId
     (fst (snd (sendMediaGroup (answering threeMessages) (Some ''T'') (JNum 7) threeItems [] Map.empty [])))
     ''b.mp4'' = Some ''B'' \<and>
   mediaCache_getMediaFileId
     (fst (snd (sendMediaGroup (answering threeMessages) (Some ''T'') (JNum 7) threeItems [] Map.empty [])))
     ''c.jpg'' = Some ''C''"
proof -
  let ?infos = "[\<lparr>file_id = ''A2''\<rparr>, \<lparr>file_id = ''B''\<rparr>, \<lparr>file_id = ''C''\<rparr>]"
  have h1: "''T'' \<noteq> []" by simp
  have h2: "answering threeMessages (apiUrl ''T'' ''sendMediaGroup'')
      (mediaGroupFormData Map.empty (JNum 7) threeItems []) = Inr threeMessages"
    by (simp add: answering_def)
  have h3: "length threeMessages = length threeItems"
    by (simp add: threeMessages_def threeItems_def)
  have h4: "map (\<lambda>(m, message). mediaFileInfo (type m) message) (zip threeItems threeMessages)
      = map Inr ?infos"
    by (simp add: threeMessages_def threeItems_def localMedia_def mediaFileInfo_def
        photoMessage_def videoMessage_def noMedia_def)
  note th = media_group_write_back_by_position [where t = "''T''" and post = "answering threeMessages"
      and mediaCache = Map.empty and chatId = "JNum 7" and mediaGroup = threeItems and moreOptions = "[]"
      and result = threeMessages and infos = ?infos and sent = "[]", OF h1 h2 h3 h4]
  have k: "media (threeItems ! 0) = ''a.jpg''" "media (threeItems ! Suc 0) = ''b.mp4''"
    "media (threeItems ! Suc (Suc 0)) = ''c.jpg''" "length threeItems = Suc (Suc (Suc 0))"
    by (simp_all add: threeItems_def localMedia_def)
  let ?after = "fst (snd (sendMediaGroup (answering threeMessages) (Some ''T'') (JNum 7) threeItems []
      Map.empty []))"
  have r: "fst (sendMediaGroup (answering threeMessages) (Some ''T'') (JNum 7) threeItems [] Map.empty [])
      = Inr threeMessages"
    using th [of 0] by blast
  note at_position = th [THEN conjunct2, THEN conjunct2]
  have a: "mediaCache_getMediaFileId ?after ''a.jpg'' = Some ''A2''"
    using at_position [of 0] k by simp
  have b: "mediaCache_getMediaFileId ?after ''b.mp4'' = Some ''B''"
    using at_position [of "Suc 0"] k by simp
  have c: "mediaCache_getMediaFileId ?after ''c.jpg'' = Some ''C''"
    using at_position [of "Suc (Suc 0)"] k by (simp add: less_Suc_eq)
  from r a b c show ?thesis by blast
qed

section \<open>The form of a media group\<close>

lemma digit_inj:
  assumes "a < 10" and "b < 10" and "digit a = digit b"
  shows "a = b"
proof -
  have "distinct ''0123456789''" by simp
  with assms show ?thesis
    unfolding digit_def by (simp add: nth_eq_iff_index_eq)
qed

lemma digit_not_underscore:
  assumes "d < 10"
  shows "digit d \<noteq> CHR ''_''"
proof -
  from assms have "digit d \<in> set ''0123456789''"
    unfolding digit_def by (intro nth_mem) simp
  then show ?thesis by auto
qed

lemma toString_not_Nil: "toString n \<noteq> []"
  by (subst toString.simps) simp

lemma toString_no_underscore: "CHR ''_'' \<notin> set (toString n)"
proof (induction n rule: toString.induct)
  case (1 n)
  show ?case
  proof (cases "n < 10")
    case True
    then show ?thesis 
      using digit_not_underscore [of n] by (subst toString.simps) auto
  next
    case False
    then show ?thesis
      using 1 digit_not_underscore [of "n mod 10"] by (subst toString.simps) auto
  qed
qed

lemma toString_inj: 
  assumes "toString a = toString b" 
  shows "a = b"
  using assms
proof (induction a arbitrary: b rule: toString.induct)
  case (1 a)
  show ?case
  proof (cases "a < 10")
    case a: True
    show ?thesis
    proof (cases "b < 10")
      case True
      with a "1.prems" show ?thesis
        by (simp add: toString.simps [of a] toString.simps [of b] digit_inj)
    next
      case False
      with a "1.prems" toString_not_Nil [of "b div 10"] show ?thesis
        by (simp add: toString.simps [of a] toString.simps [of b])
    qed
  next
    case a: False
    show ?thesis
    proof (cases "b < 10")
      case True
      with a "1.prems" toString_not_Nil [of "a div 10"] show ?thesis
        by (simp add: toString.simps [of a] toString.simps [of b])
    next
      case False
      with a "1.prems" have e: "toString (a div 10) = toString (b div 10)" 
        and d: "digit (a mod 10) = digit (b mod 10)"
        by (simp_all add: toString.simps [of a] toString.simps [of b])
      from "1.IH" [OF a e] have "a div 10 = b div 10" .
      moreover from d have "a mod 10 = b mod 10"
        by (intro digit_inj) simp_all
      ultimately show ?thesis
        by (metis div_mult_mod_eq)
    qed
  qed
qed

lemma toString_thumb_neq: "toString a @ ''_thumb'' \<noteq> toString b"
proof
  assume "toString a @ ''_thumb'' = toString b"
  then have "CHR ''_'' \<in> set (toString b)" 
    by (metis in_set_conv_decomp append_Cons append_assoc)
  with toString_no_underscore show False by blast
qed

lemma map_of_obj_set:
  "map_of (obj_set xs k v) k' = (if k' = k then Some v else map_of xs k')"
  by (induction xs) auto

lemma map_of_spread:
  assumes "k \<notin> fst ` set b"
  shows "map_of (spread a b) k = map_of a k"
  using assms unfolding spread_def
proof (induction b arbitrary: a)
  case Nil
  then show ?case by simp
next
  case (Cons x b)
  obtain k' v' where x: "x = (k', v')" by (cases x)
  with Cons.prems have "k' \<noteq> k" and "k \<notin> fst ` set b" by auto
  with Cons.IH [of "obj_set a k' v'"] show ?case
    by (simp add: x map_of_obj_set)
qed

lemma mediaDescriptor_media:
  assumes "''media'' \<notin> metadataKeys m"
  shows "map_of (mediaDescriptor mediaCache index m) ''media''
           = Some (JStr (case cachedFileId mediaCache (media m) of
                           Some fileId \<Rightarrow> fileId
                         | None \<Rightarrow> ''attach://'' @ toString index))"
proof -
  from assms have 1: "''media'' \<notin> fst ` set (case options m of Some opts \<Rightarrow> opts | None \<Rightarrow> [])"
    and 2: "''media'' \<notin> fst ` set (if instanceofVideo m then resolution m else [])"
    by (simp_all add: metadataKeys_def)
  have 3: "''media'' \<notin> fst ` set (case thumb m of
                Some t \<Rightarrow>
                  [(''thumb'', JStr (case cachedFileId mediaCache (media t) of
                                      Some fileId \<Rightarrow> fileId
                                    | None \<Rightarrow> ''attach://'' @ toString index @ ''_thumb''))]
              | None \<Rightarrow> [])"
    by (cases "thumb m") simp_all
  show ?thesis
    unfolding mediaDescriptor_def
    by (simp only: map_of_spread [OF 1] map_of_spread [OF 2] map_of_spread [OF 3]) simp
qed

lemma mediaDescriptor_thumb:
  assumes "''thumb'' \<notin> metadataKeys m"
  shows "map_of (mediaDescriptor mediaCache index m) ''thumb''
           = (case thumb m of
                Some t \<Rightarrow> Some (JStr (case cachedFileId mediaCache (media t) of
                                        Some fileId \<Rightarrow> fileId
                                      | None \<Rightarrow> ''attach://'' @ toString index @ ''_thumb''))
              | None \<Rightarrow> None)"
proof -
  from assms have 1: "''thumb'' \<notin> fst ` set (case options m of Some opts \<Rightarrow> opts | None \<Rightarrow> [])"
    and 2: "''thumb'' \<notin> fst ` set (if instanceofVideo m then resolution m else [])"
    by (simp_all add: metadataKeys_def)
  show ?thesis
    unfolding mediaDescriptor_def
    by (simp only: map_of_spread [OF 1] map_of_spread [OF 2])
       (simp add: spread_def split: option.splits)
qed

lemma descriptors_nth:
  assumes "i < length mediaGroup"
  shows "descriptors mediaCache mediaGroup ! i = JObj (mediaDescriptor mediaCache i (mediaGroup ! i))"
  using assms by (simp add: descriptors_def nth_enumerate_eq)

lemma length_descriptors: "length (descriptors mediaCache mediaGroup) = length mediaGroup"
  by (simp add: descriptors_def)

lemma appendMediaToFormData_Inr:
  "appendMediaToFormData formData key (Inr m) = formData @ [(key, payload m)]"
  by (simp add: payload_def)

lemma attachMedia_eq:
  "attachMedia mediaCache (index, m) formData
     = formData
       @ (if cachedFileId mediaCache (media m) = None then [(toString index, payload m)] else [])
       @ (case thumb m of
            Some t \<Rightarrow>
              if cachedFileId mediaCache (media t) = None
              then [(toString index @ ''_thumb'', payload t)] else []
          | None \<Rightarrow> [])"
  by (cases "thumb m")
     (simp_all add: attachMedia_def appendMediaToFormData_Inr Let_def del: appendMediaToFormData.simps)

lemma fold_attachMedia:
  "fold (attachMedia mediaCache) ims formData
     = formData @ concat (map (\<lambda>im. attachMedia mediaCache im []) ims)"
proof (induction ims arbitrary: formData)
  case Nil
  then show ?case by simp
next
  case (Cons im ims)
  obtain index m where im: "im = (index, m)" by (cases im)
  have "attachMedia mediaCache im formData = formData @ attachMedia mediaCache im []"
    unfolding im by (simp add: attachMedia_eq [of mediaCache index m formData]
        attachMedia_eq [of mediaCache index m "[]"])
  then show ?case by (simp add: Cons.IH)
qed

lemma mediaGroupFormData_eq:
  "mediaGroupFormData mediaCache chatId mediaGroup moreOptions
     = buildAttachFormData
         (spread [(''chat_id'', V chatId), (''media'', V (JArr (descriptors mediaCache mediaGroup)))]
            moreOptions)
       @ attachments mediaCache mediaGroup"
  by (simp add: mediaGroupFormData_def attachments_def Let_def
      fold_attachMedia [of mediaCache "enumerate 0 mediaGroup" "buildAttachFormData c" for c]
      fold_attachMedia [of mediaCache "enumerate 0 mediaGroup" "[]"])

lemma in_attachments:
  "x \<in> set (attachments mediaCache mediaGroup)
     \<longleftrightarrow> (\<exists>j<length mediaGroup. x \<in> set (attachMedia mediaCache (j, mediaGroup ! j) []))"
proof -
  have "x \<in> set (attachments mediaCache mediaGroup)
     \<longleftrightarrow> (\<exists>im \<in> set (enumerate 0 mediaGroup). x \<in> set (attachMedia mediaCache im []))"
    by (simp add: attachments_def fold_attachMedia [of mediaCache "enumerate 0 mediaGroup" "[]"])
  also have "\<dots> \<longleftrightarrow> (\<exists>j<length mediaGroup. x \<in> set (attachMedia mediaCache (j, mediaGroup ! j) []))"
    by (force simp: in_set_enumerate_eq)
  finally show ?thesis .
qed

lemma attachment_names:
  assumes "(name, v) \<in> set (attachments mediaCache mediaGroup)"
  shows "\<exists>j<length mediaGroup.
           (name = toString j \<and> v = payload (mediaGroup ! j) \<and>
            cachedFileId mediaCache (media (mediaGroup ! j)) = None) \<or>
           (\<exists>t. thumb (mediaGroup ! j) = Some t \<and> name = toString j @ ''_thumb'' \<and> v = payload t \<and>
            cachedFileId mediaCache (media t) = None)"
proof -
  from assms obtain j where j: "j < length mediaGroup"
    and x: "(name, v) \<in> set (attachMedia mediaCache (j, mediaGroup ! j) [])"
    by (auto simp: in_attachments)
  from x have "(name = toString j \<and> v = payload (mediaGroup ! j) \<and>
            cachedFileId mediaCache (media (mediaGroup ! j)) = None) \<or>
           (\<exists>t. thumb (mediaGroup ! j) = Some t \<and> name = toString j @ ''_thumb'' \<and> v = payload t \<and>
            cachedFileId mediaCache (media t) = None)"
    by (cases "thumb (mediaGroup ! j)") (auto simp: attachMedia_eq split: if_splits)
  with j show ?thesis by blast
qed

lemma not_attached_by_index:
  assumes "i < length mediaGroup" and "cachedFileId mediaCache (media (mediaGroup ! i)) \<noteq> None"
  shows "toString i \<notin> fst ` set (attachments mediaCache mediaGroup)"
proof
  assume "toString i \<in> fst ` set (attachments mediaCache mediaGroup)"
  then obtain v where "(toString i, v) \<in> set (attachments mediaCache mediaGroup)" by auto
  from attachment_names [OF this] obtain j where
    "(toString i = toString j \<and> cachedFileId mediaCache (media (mediaGroup ! j)) = None) \<or>
     toString i = toString j @ ''_thumb''"
    by blast
  then show False
  proof
    assume a: "toString i = toString j \<and> cachedFileId mediaCache (media (mediaGroup ! j)) = None"
    then have "i = j" by (simp add: toString_inj)
    with a assms(2) show False by simp
  next
    assume "toString i = toString j @ ''_thumb''"
    then show False using toString_thumb_neq [of j i] by simp
  qed
qed

lemma thumb_not_attached_by_index:
  assumes "i < length mediaGroup"
    and "\<And>t. thumb (mediaGroup ! i) = Some t \<Longrightarrow> cachedFileId mediaCache (media t) \<noteq> None"
  shows "toString i @ ''_thumb'' \<notin> fst ` set (attachments mediaCache mediaGroup)"
proof
  assume "toString i @ ''_thumb'' \<in> fst ` set (attachments mediaCache mediaGroup)"
  then obtain v where "(toString i @ ''_thumb'', v) \<in> set (attachments mediaCache mediaGroup)" by auto
  from attachment_names [OF this] obtain j where
    "toString i @ ''_thumb'' = toString j \<or>
     (\<exists>t. thumb (mediaGroup ! j) = Some t \<and> toString i @ ''_thumb'' = toString j @ ''_thumb'' \<and>
        cachedFileId mediaCache (media t) = None)"
    by blast
  then show False
  proof
    assume "toString i @ ''_thumb'' = toString j"
    then show False using toString_thumb_neq [of i j] by simp
  next
    assume "\<exists>t. thumb (mediaGroup ! j) = Some t \<and> toString i @ ''_thumb'' = toString j @ ''_thumb'' \<and>
        cachedFileId mediaCache (media t) = None"
    then obtain t where t: "thumb (mediaGroup ! j) = Some t" "toString i = toString j"
      "cachedFileId mediaCache (media t) = None"
      by auto
    from t(2) have "i = j" by (rule toString_inj)
    with t(1,3) assms(2) [of t] show False by simp
  qed
qed

lemma attached_by_index:
  assumes "i < length mediaGroup" and "cachedFileId mediaCache (media (mediaGroup ! i)) = None"
  shows "(toString i, payload (mediaGroup ! i)) \<in> set (attachments mediaCache mediaGroup)"
proof -
  from assms(2) have "(toString i, payload (mediaGroup ! i))
      \<in> set (attachMedia mediaCache (i, mediaGroup ! i) [])"
    by (simp add: attachMedia_eq)
  with assms(1) show ?thesis unfolding in_attachments by blast
qed

lemma thumb_attached_by_index:
  assumes "i < length mediaGroup" and "thumb (mediaGroup ! i) = Some t"
    and "cachedFileId mediaCache (media t) = None"
  shows "(toString i @ ''_thumb'', payload t) \<in> set (attachments mediaCache mediaGroup)"
proof -
  from assms(2,3) have "(toString i @ ''_thumb'', payload t)
      \<in> set (attachMedia mediaCache (i, mediaGroup ! i) [])"
    by (simp add: attachMedia_eq)
  with assms(1) show ?thesis unfolding in_attachments by blast
qed

lemma descriptor_array_in_form:
  assumes "''media'' \<notin> fst ` set moreOptions"
  shows "(''media'', JsonText (V (JArr (descriptors mediaCache mediaGroup))))
           \<in> set (mediaGroupFormData mediaCache chatId mediaGroup moreOptions)"
proof -
  let ?d = "V (JArr (descriptors mediaCache mediaGroup))"
  let ?config = "spread [(''chat_id'', V chatId), (''media'', ?d)] moreOptions"
  have "map_of ?config ''media'' = Some ?d"
    by (simp add: map_of_spread [OF assms])
  then have "(''media'', ?d) \<in> set ?config" by (rule map_of_SomeD)
  then have "(''media'', fieldValue ?d) \<in> set (buildAttachFormData ?config)"
    by (force simp: buildAttachFormData_eq)
  then show ?thesis
    by (simp add: mediaGroupFormData_eq fieldValue_def)
qed

text \<open>
  C1, as the claim states it, fails for an item whose key is cached with the empty
  string (the entry a write-back leaves when the response carries an empty \<open>file_id\<close>):
  the looked-up value is falsy, so the descriptor carries the placeholder and the binary
  part is appended, although the key is in the cache.
\<close>

theorem cached_empty_identifier_in_group_counterexample:
  "snd (saveMediaFileId Map.empty ''a.jpg'' photo (photoMessage [''''])) = [''a.jpg'' \<mapsto> ''''] \<and>
   mediaCache_getMediaFileId [''a.jpg'' \<mapsto> ''''] (media (localMedia photo ''a.jpg'')) = Some '''' \<and>
   descriptors [''a.jpg'' \<mapsto> ''''] [localMedia photo ''a.jpg'']
     = [JObj [(''type'', JStr ''photo''), (''media'', JStr ''attach://0'')]] \<and>
   attachments [''a.jpg'' \<mapsto> ''''] [localMedia photo ''a.jpg''] = [(''0'', ReadStream ''a.jpg'')]"
  by (simp add: descriptors_def mediaDescriptor_def attachments_def attachMedia_def spread_def
      cachedFileId_def mediaCache_getMediaFileId_def localMedia_def toString.simps digit_def
      saveMediaFileId_def mediaFileInfo_def photoMessage_def noMedia_def mediaCache_saveMediaFileId_def)

text \<open>
  C1, amended. An item is a hit when the cache holds a non-empty identifier for its key
  (\<open>cachedFileId\<close> gives it), and a miss otherwise. For the item at index \<open>i\<close> of a media
  group, whose \<open>resolution\<close> and \<open>options\<close> do not themselves define \<open>media\<close> or \<open>thumb\<close>:
  the i-th descriptor is the one built for the item; the form is the configuration
  fields followed by the attachments. On a miss the descriptor's \<open>media\<close> is
  \<open>attach://i\<close> and the payload of the item is attached under the name \<open>i\<close>; on a hit
  the descriptor's \<open>media\<close> is the cached identifier and no attachment is named \<open>i\<close>.
  The thumbnail is treated in the same way under \<open>attach://i_thumb\<close> and the name
  \<open>i_thumb\<close>; without a thumbnail the descriptor has no \<open>thumb\<close> and nothing is attached
  for it. Every attachment comes from a missed item or a missed thumbnail.
\<close>

theorem media_group_placeholders:
  assumes "i < length mediaGroup"
    and "''media'' \<notin> metadataKeys (mediaGroup ! i)"
    and "''thumb'' \<notin> metadataKeys (mediaGroup ! i)"
  shows "descriptors mediaCache mediaGroup ! i = JObj (mediaDescriptor mediaCache i (mediaGroup ! i)) \<and>
         mediaGroupFormData mediaCache chatId mediaGroup moreOptions
           = buildAttachFormData
               (spread [(''chat_id'', V chatId), (''media'', V (JArr (descriptors mediaCache mediaGroup)))]
                  moreOptions)
             @ attachments mediaCache mediaGroup \<and>
         (cachedFileId mediaCache (media (mediaGroup ! i)) = None \<longrightarrow>
            map_of (mediaDescriptor mediaCache i (mediaGroup ! i)) ''media''
              = Some (JStr (''attach://'' @ toString i)) \<and>
            (toString i, payload (mediaGroup ! i)) \<in> set (attachments mediaCache mediaGroup)) \<and>
         (cachedFileId mediaCache (media (mediaGroup ! i)) = Some fileId \<longrightarrow>
            map_of (mediaDescriptor mediaCache i (mediaGroup ! i)) ''media'' = Some (JStr fileId) \<and>
            toString i \<notin> fst ` set (attachments mediaCache mediaGroup)) \<and>
         (thumb (mediaGroup ! i) = None \<longrightarrow>
            map_of (mediaDescriptor mediaCache i (mediaGroup ! i)) ''thumb'' = None \<and>
            toString i @ ''_thumb'' \<notin> fst ` set (attachments mediaCache mediaGroup)) \<and>
         (thumb (mediaGroup ! i) = Some t \<and> cachedFileId mediaCache (media t) = None \<longrightarrow>
            map_of (mediaDescriptor mediaCache i (mediaGroup ! i)) ''thumb''
              = Some (JStr (''attach://'' @ toString i @ ''_thumb'')) \<and>
            (toString i @ ''_thumb'', payload t) \<in> set (attachments mediaCache mediaGroup)) \<and>
         (thumb (mediaGroup ! i) = Some t \<and> cachedFileId mediaCache (media t) = Some thumbId \<longrightarrow>
            map_of (mediaDescriptor mediaCache i (mediaGroup ! i)) ''thumb'' = Some (JStr thumbId) \<and>
            toString i @ ''_thumb'' \<notin> fst ` set (attachments mediaCache mediaGroup)) \<and>
         ((name, v) \<in> set (attachments mediaCache mediaGroup) \<longrightarrow>
            (\<exists>j<length mediaGroup.
               (name = toString j \<and> v = payload (mediaGroup ! j) \<and>
                cachedFileId mediaCache (media (mediaGroup ! j)) = None) \<or>
               (\<exists>t'. thumb (mediaGroup ! j) = Some t' \<and> name = toString j @ ''_thumb'' \<and>
                v = payload t' \<and> cachedFileId mediaCache (media t') = None)))"
proof (intro conjI impI)
  show "descriptors mediaCache mediaGroup ! i = JObj (mediaDescriptor mediaCache i (mediaGroup ! i))"
    using assms(1) by (rule descriptors_nth)
  show "mediaGroupFormData mediaCache chatId mediaGroup moreOptions
           = buildAttachFormData
               (spread [(''chat_id'', V chatId), (''media'', V (JArr (descriptors mediaCache mediaGroup)))]
                  moreOptions)
             @ attachments mediaCache mediaGroup"
    by (rule mediaGroupFormData_eq)
next
  assume miss: "cachedFileId mediaCache (media (mediaGroup ! i)) = None"
  then show "map_of (mediaDescriptor mediaCache i (mediaGroup ! i)) ''media''
              = Some (JStr (''attach://'' @ toString i))"
    by (simp add: mediaDescriptor_media [OF assms(2)])
  from assms(1) miss
  show "(toString i, payload (mediaGroup ! i)) \<in> set (attachments mediaCache mediaGroup)"
    by (rule attached_by_index)
next
  assume hit: "cachedFileId mediaCache (media (mediaGroup ! i)) = Some fileId"
  then show "map_of (mediaDescriptor mediaCache i (mediaGroup ! i)) ''media'' = Some (JStr fileId)"
    by (simp add: mediaDescriptor_media [OF assms(2)])
  from hit show "toString i \<notin> fst ` set (attachments mediaCache mediaGroup)"
    by (intro not_attached_by_index assms(1)) simp
next
  assume none: "thumb (mediaGroup ! i) = None"
  then show "map_of (mediaDescriptor mediaCache i (mediaGroup ! i)) ''thumb'' = None"
    by (simp add: mediaDescriptor_thumb [OF assms(3)])
  from none show "toString i @ ''_thumb'' \<notin> fst ` set (attachments mediaCache mediaGroup)"
    by (intro thumb_not_attached_by_index assms(1)) simp
next
  assume miss: "thumb (mediaGroup ! i) = Some t \<and> cachedFileId mediaCache (media t) = None"
  then show "map_of (mediaDescriptor mediaCache i (mediaGroup ! i)) ''thumb''
              = Some (JStr (''attach://'' @ toString i @ ''_thumb''))"
    by (simp add: mediaDescriptor_thumb [OF assms(3)])
  from miss show "(toString i @ ''_thumb'', payload t) \<in> set (attachments mediaCache mediaGroup)"
    by (intro thumb_attached_by_index assms(1)) simp_all
next
  assume hit: "thumb (mediaGroup ! i) = Some t \<and> cachedFileId mediaCache (media t) = Some thumbId"
  then show "map_of (mediaDescriptor mediaCache i (mediaGroup ! i)) ''thumb'' = Some (JStr thumbId)"
    by (simp add: mediaDescriptor_thumb [OF assms(3)])
  from hit show "toString i @ ''_thumb'' \<notin> fst ` set (attachments mediaCache mediaGroup)"
    by (intro thumb_not_attached_by_index assms(1)) simp
next
  assume "(name, v) \<in> set (attachments mediaCache mediaGroup)"
  then show "\<exists>j<length mediaGroup.
               (name = toString j \<and> v = payload (mediaGroup ! j) \<and>
                cachedFileId mediaCache (media (mediaGroup ! j)) = None) \<or>
               (\<exists>t'. thumb (mediaGroup ! j) = Some t' \<and> name = toString j @ ''_thumb'' \<and>
                v = payload t' \<and> cachedFileId mediaCache (media t') = None)"
    by (rule attachment_names)
qed

theorem media_group_placeholders_witness:
  "map_of (mediaDescriptor [''b.mp4'' \<mapsto> ''B-ID''] 0 (mixedGroup ! 0)) ''media''
     = Some (JStr ''attach://0'') \<and>
   (''0'', ReadStream ''a.jpg'') \<in> set (attachments [''b.mp4'' \<mapsto> ''B-ID''] mixedGroup) \<and>
   map_of (mediaDescriptor [''b.mp4'' \<mapsto> ''B-ID''] 1 (mixedGroup ! 1)) ''media''
     = Some (JStr ''B-ID'') \<and>
   ''1'' \<notin> fst ` set (attachments [''b.mp4'' \<mapsto> ''B-ID''] mixedGroup) \<and>
   map_of (mediaDescriptor [''b.mp4'' \<mapsto> ''B-ID''] 2 (mixedGroup ! 2)) ''media''
     = Some (JStr ''attach://2'') \<and>
   (''2'', ReadStream ''c.jpg'') \<in> set (attachments [''b.mp4'' \<mapsto> ''B-ID''] mixedGroup) \<and>
   descriptors [''b.mp4'' \<mapsto> ''B-ID''] mixedGroup
     = [JObj [(''type'', JStr ''photo''), (''media'', JStr ''attach://0'')],
        JObj [(''type'', JStr ''video''), (''media'', JStr ''B-ID'')],
        JObj [(''type'', JStr ''photo''), (''media'', JStr ''attach://2'')]] \<and>
   attachments [''b.mp4'' \<mapsto> ''B-ID''] mixedGroup
     = [(''0'', ReadStream ''a.jpg''), (''2'', ReadStream ''c.jpg'')]"
proof -
  let ?c = "[''b.mp4'' \<mapsto> ''B-ID'']"
  have items: "mixedGroup ! 0 = localMedia photo ''a.jpg''" "mixedGroup ! 1 = localMedia video ''b.mp4''"
    "mixedGroup ! 2 = localMedia photo ''c.jpg''" "length mixedGroup = 3"
    by (simp_all add: mixedGroup_def)
  have keys: "metadataKeys (localMedia k p) = {}" for k p
    by (simp add: metadataKeys_def localMedia_def)
  have lookups: "cachedFileId ?c (media (localMedia photo ''a.jpg'')) = None"
    "cachedFileId ?c (media (localMedia video ''b.mp4'')) = Some ''B-ID''"
    "cachedFileId ?c (media (localMedia photo ''c.jpg'')) = None"
    by (simp_all add: cachedFileId_def mediaCache_getMediaFileId_def localMedia_def)
  have payloads: "payload (localMedia k p) = ReadStream p" for k p
    by (simp add: payload_def localMedia_def)
  have digits: "toString 0 = ''0''" "toString 1 = ''1''" "toString 2 = ''2''"
    by (simp_all add: toString.simps digit_def)
  have d: "descriptors ?c mixedGroup
     = [JObj [(''type'', JStr ''photo''), (''media'', JStr ''attach://0'')],
        JObj [(''type'', JStr ''video''), (''media'', JStr ''B-ID'')],
        JObj [(''type'', JStr ''photo''), (''media'', JStr ''attach://2'')]]"
    by (simp add: descriptors_def mediaDescriptor_def spread_def mixedGroup_def
        cachedFileId_def mediaCache_getMediaFileId_def localMedia_def toString.simps digit_def)
  have a: "attachments ?c mixedGroup = [(''0'', ReadStream ''a.jpg''), (''2'', ReadStream ''c.jpg'')]"
    by (simp add: attachments_def attachMedia_def mixedGroup_def
        cachedFileId_def mediaCache_getMediaFileId_def localMedia_def toString.simps digit_def)
  have 0: "map_of (mediaDescriptor ?c 0 (mixedGroup ! 0)) ''media'' = Some (JStr ''attach://0'') \<and>
      (''0'', ReadStream ''a.jpg'') \<in> set (attachments ?c mixedGroup)"
    using media_group_placeholders [of 0 mixedGroup ?c] items keys lookups payloads digits by simp
  have 1: "map_of (mediaDescriptor ?c 1 (mixedGroup ! 1)) ''media'' = Some (JStr ''B-ID'') \<and>
      ''1'' \<notin> fst ` set (attachments ?c mixedGroup)"
    using media_group_placeholders [of 1 mixedGroup ?c _ _ "''B-ID''"] items keys lookups payloads digits
    by simp
  have 2: "map_of (mediaDescriptor ?c 2 (mixedGroup ! 2)) ''media'' = Some (JStr ''attach://2'') \<and>
      (''2'', ReadStream ''c.jpg'') \<in> set (attachments ?c mixedGroup)"
    using media_group_placeholders [of 2 mixedGroup ?c] items keys lookups payloads digits by simp
  from 0 1 2 d a show ?thesis by blast
qed

end
